theory Spec2Isabelle
  imports Main "HOL-Library.Sublist"
begin

section \<open>Python values\<close>

text \<open>
  The program works on the parsed body of a Bing News response: nested dictionaries,
  lists, strings and numbers. A dictionary is an association list in insertion order;
  lookup takes the first binding of a key and assignment replaces it in place, as a Python
  dict does. Strings are lists of characters with code points below 256. Numbers are
  integers (a fractional number takes the same branches of this program as an integer).
\<close>

datatype json =
    JNull
  | JBool bool
  | JInt int
  | JStr string
  | JArr "json list"
  | JObj "(string \<times> json) list"

datatype py_error =
    AssertionError
  | KeyError json
  | IndexError
  | TypeError
  | AttributeError
  | ValueError
  | HTTPError string
  | OtherError string

text \<open>\<open>key in container\<close>: key test on a dict, element test on a list, substring test on
  a string; any other value is not iterable.\<close>

fun py_in :: "string \<Rightarrow> json \<Rightarrow> py_error + bool" where
  "py_in k (JObj d) = Inr (k \<in> set (map fst d))"
| "py_in k (JArr xs) = Inr (JStr k \<in> set xs)"
| "py_in k (JStr s) = Inr (sublist k s)"
| "py_in k JNull = Inl TypeError"
| "py_in k (JBool b) = Inl TypeError"
| "py_in k (JInt i) = Inl TypeError"

text \<open>\<open>container[key]\<close> with a string key: only a dict accepts it.\<close>

fun getitem :: "json \<Rightarrow> string \<Rightarrow> py_error + json" where
  "getitem (JObj d) k = (case map_of d k of None \<Rightarrow> Inl (KeyError (JStr k)) | Some v \<Rightarrow> Inr v)"
| "getitem (JArr xs) k = Inl TypeError"
| "getitem (JStr s) k = Inl TypeError"
| "getitem JNull k = Inl TypeError"
| "getitem (JBool b) k = Inl TypeError"
| "getitem (JInt i) k = Inl TypeError"

text \<open>\<open>container[0]\<close>: the first element of a list or string, \<open>IndexError\<close> when it is
  empty; a dict parsed from JSON has string keys only, so the key \<open>0\<close> is missing.\<close>

fun getitem0 :: "json \<Rightarrow> py_error + json" where
  "getitem0 (JArr []) = Inl IndexError"
| "getitem0 (JArr (v # vs)) = Inr v"
| "getitem0 (JStr []) = Inl IndexError"
| "getitem0 (JStr (c # cs)) = Inr (JStr [c])"
| "getitem0 (JObj d) = Inl (KeyError (JInt 0))"
| "getitem0 JNull = Inl TypeError"
| "getitem0 (JBool b) = Inl TypeError"
| "getitem0 (JInt i) = Inl TypeError"

text \<open>\<open>d[k] = v\<close> on the association list of a dict: an existing key keeps its place.\<close>

fun dict_set :: "string \<Rightarrow> json \<Rightarrow> (string \<times> json) list \<Rightarrow> (string \<times> json) list" where
  "dict_set k v [] = [(k, v)]"
| "dict_set k v (p # ps) = (if fst p = k then (k, v) # ps else p # dict_set k v ps)"

text \<open>\<open>for item in value\<close>: a list yields its elements, a dict its keys, a string its
  characters.\<close>

fun py_iter :: "json \<Rightarrow> py_error + json list" where
  "py_iter (JArr xs) = Inr xs"
| "py_iter (JObj d) = Inr (map (\<lambda>p. JStr (fst p)) d)"
| "py_iter (JStr s) = Inr (map (\<lambda>c. JStr [c]) s)"
| "py_iter JNull = Inl TypeError"
| "py_iter (JBool b) = Inl TypeError"
| "py_iter (JInt i) = Inl TypeError"

fun digits :: "nat \<Rightarrow> string" where
  "digits n = (if n < 10 then [''0123456789'' ! n]
               else digits (n div 10) @ [''0123456789'' ! (n mod 10)])"

declare digits.simps [simp del]

definition str_int :: "int \<Rightarrow> string" where
  "str_int i = (if i < 0 then CHR ''-'' # digits (nat (- i)) else digits (nat i))"

text \<open>\<open>str(v)\<close> as an f-string applies it. The \<open>repr\<close> of a list or dict is left to a
  parameter.\<close>

fun py_str :: "(json \<Rightarrow> string) \<Rightarrow> json \<Rightarrow> string" where
  "py_str rp (JStr s) = s"
| "py_str rp JNull = ''None''"
| "py_str rp (JBool b) = (if b then ''True'' else ''False'')"
| "py_str rp (JInt i) = str_int i"
| "py_str rp (JArr xs) = rp (JArr xs)"
| "py_str rp (JObj d) = rp (JObj d)"

section \<open>textwrap.wrap\<close>

text \<open>
  \<open>textwrap.wrap(text, width)\<close> of the standard library, with the defaults of
  \<open>TextWrapper\<close> that the program leaves in place: \<open>expand_tabs\<close>, \<open>replace_whitespace\<close>,
  \<open>drop_whitespace\<close>, \<open>break_long_words\<close> and \<open>break_on_hyphens\<close> are on, \<open>tabsize\<close> is 8,
  the indents are empty, \<open>fix_sentence_endings\<close> is off and \<open>max_lines\<close> is \<open>None\<close>.
\<close>

definition whitespace :: "char \<Rightarrow> bool" where
  "whitespace c = (c \<in> set [CHR 0x09, CHR 0x0A, CHR 0x0B, CHR 0x0C, CHR 0x0D, CHR 0x20])"

definition in_range :: "nat \<Rightarrow> nat \<Rightarrow> char \<Rightarrow> bool" where
  "in_range lo hi c = (lo \<le> of_char c \<and> (of_char c :: nat) \<le> hi)"

text \<open>\<open>str.isspace\<close> on one character.\<close>

definition isspace :: "char \<Rightarrow> bool" where
  "isspace c = (in_range 0x09 0x0D c \<or> in_range 0x1C 0x20 c \<or> c = CHR 0x85 \<or> c = CHR 0xA0)"

text \<open>The regular expression classes \<open>[^\d\W]\<close>, \<open>\w\<close> and \<open>[\w!"'&.,?]\<close>.\<close>

definition letter :: "char \<Rightarrow> bool" where
  "letter c = (in_range 0x41 0x5A c \<or> c = CHR 0x5F \<or> in_range 0x61 0x7A c \<or> c = CHR 0xAA
     \<or> in_range 0xB2 0xB3 c \<or> c = CHR 0xB5 \<or> in_range 0xB9 0xBA c \<or> in_range 0xBC 0xBE c
     \<or> in_range 0xC0 0xD6 c \<or> in_range 0xD8 0xF6 c \<or> in_range 0xF8 0xFF c)"

definition word_char :: "char \<Rightarrow> bool" where
  "word_char c = (in_range 0x30 0x39 c \<or> letter c)"

definition word_punct :: "char \<Rightarrow> bool" where
  "word_punct c = (word_char c \<or> c \<in> set ''!\"'&.,?'')"

text \<open>\<open>text.expandtabs(tabsize)\<close>; \<open>j\<close> is the column, reset by a line break.\<close>

fun expandtabs :: "nat \<Rightarrow> nat \<Rightarrow> string \<Rightarrow> string" where
  "expandtabs tabsize j [] = []"
| "expandtabs tabsize j (c # cs) =
     (if c = CHR 0x09 then
        (if tabsize > 0
         then replicate (tabsize - j mod tabsize) CHR '' ''
              @ expandtabs tabsize (j + (tabsize - j mod tabsize)) cs
         else expandtabs tabsize j cs)
      else if c = CHR 0x0A \<or> c = CHR 0x0D then c # expandtabs tabsize 0 cs
      else c # expandtabs tabsize (j + 1) cs)"

definition munge_whitespace :: "string \<Rightarrow> string" where
  "munge_whitespace text =
     map (\<lambda>c. if whitespace c then CHR '' '' else c) (expandtabs 8 0 text)"

subsection \<open>Splitting into chunks\<close>

text \<open>
  \<open>wordsep_re.split(text)\<close> with the empty pieces removed. The expression matches at every
  position of a text that is not finished, so the chunks are the successive matches:
  a run of whitespace; or two or more hyphens between a \<open>word_punct\<close> character and a
  \<open>\w\<close>; or the shortest run of non-whitespace that ends after the hyphen of a hyphenated
  word, at the end of a word, or before such a dash. The characters before the position
  are kept, last first, for the look-behind assertions.
\<close>

text \<open>\<open>-{2,}\<close> followed by \<open>(?=\w)\<close>: the number of hyphens.\<close>

definition em_dash :: "string \<Rightarrow> nat option" where
  "em_dash s =
     (let n = length (takeWhile (\<lambda>c. c = CHR ''-'') s)
      in if 2 \<le> n \<and> (case drop n s of [] \<Rightarrow> False | c # cs \<Rightarrow> word_char c)
         then Some n else None)"

text \<open>\<open>(?<=lt{2}-)\<close> or \<open>(?<=lt-lt-)\<close>, read just after the hyphen; \<open>bef\<close> are the
  characters before the hyphen.\<close>

fun hyphen_behind :: "string \<Rightarrow> bool" where
  "hyphen_behind (b1 # b2 # b3 # bs) =
     ((letter b1 \<and> letter b2) \<or> (letter b1 \<and> b2 = CHR ''-'' \<and> letter b3))"
| "hyphen_behind [b1, b2] = (letter b1 \<and> letter b2)"
| "hyphen_behind bs = False"

text \<open>\<open>(?= lt -? lt)\<close>.\<close>

fun hyphen_ahead :: "string \<Rightarrow> bool" where
  "hyphen_ahead (a1 # a2 # a3 # as) =
     ((letter a1 \<and> a2 = CHR ''-'' \<and> letter a3) \<or> (letter a1 \<and> letter a2))"
| "hyphen_ahead [a1, a2] = (letter a1 \<and> letter a2)"
| "hyphen_ahead as = False"

text \<open>The third alternative after at least one character: how many more characters the
  match takes. \<open>bef\<close> holds the characters before the position, those of the match
  included.\<close>

fun word_end :: "string \<Rightarrow> string \<Rightarrow> nat" where
  "word_end bef [] = 0"
| "word_end bef (c # cs) =
     (if c = CHR ''-'' \<and> hyphen_behind bef \<and> hyphen_ahead cs then 1
      else if whitespace c then 0
      else if bef \<noteq> [] \<and> word_punct (hd bef) \<and> em_dash (c # cs) \<noteq> None then 0
      else 1 + word_end (c # bef) cs)"

text \<open>The match that starts with the character \<open>c\<close>: the number of characters after
  \<open>c\<close> that belong to it.\<close>

definition match_rest :: "string \<Rightarrow> char \<Rightarrow> string \<Rightarrow> nat" where
  "match_rest bef c cs =
     (if whitespace c then length (takeWhile whitespace cs)
      else case (if bef \<noteq> [] \<and> word_punct (hd bef) then em_dash (c # cs) else None) of
             Some n \<Rightarrow> n - 1
           | None \<Rightarrow> word_end (c # bef) cs)"

fun split_from :: "string \<Rightarrow> string \<Rightarrow> string list" where
  "split_from bef [] = []"
| "split_from bef (c # cs) =
     (c # take (match_rest bef c cs) cs)
       # split_from (rev (take (match_rest bef c cs) cs) @ c # bef)
                    (drop (match_rest bef c cs) cs)"

definition split :: "string \<Rightarrow> string list" where
  "split text = split_from [] text"

subsection \<open>Wrapping the chunks\<close>

text \<open>\<open>chunk.strip() == ''\<close>.\<close>

definition blank :: "string \<Rightarrow> bool" where
  "blank chunk = list_all isspace chunk"

text \<open>\<open>chunk.rfind('-', 0, space_left)\<close>, \<open>None\<close> for \<open>-1\<close>.\<close>

definition rfind_hyphen :: "string \<Rightarrow> nat \<Rightarrow> nat option" where
  "rfind_hyphen chunk e =
     (case filter (\<lambda>i. chunk ! i = CHR ''-'') (rev [0 ..< min e (length chunk)]) of
        [] \<Rightarrow> None
      | i # is \<Rightarrow> Some i)"

text \<open>\<open>_handle_long_word\<close>: the piece put on the current line and what stays of the
  chunk.\<close>

definition handle_long_word :: "nat \<Rightarrow> nat \<Rightarrow> string \<Rightarrow> string \<times> string" where
  "handle_long_word width cur_len chunk =
     (let space_left = (if width < 1 then 1 else width - cur_len);
          end = (if length chunk > space_left then
                   (case rfind_hyphen chunk space_left of
                      None \<Rightarrow> space_left
                    | Some hyphen \<Rightarrow>
                        if hyphen > 0 \<and> list_ex (\<lambda>c. c \<noteq> CHR ''-'') (take hyphen chunk)
                        then hyphen + 1 else space_left)
                 else space_left)
      in (take end chunk, drop end chunk))"

text \<open>The inner loop: chunks go on the line while they fit.\<close>

fun fill_line :: "nat \<Rightarrow> string list \<Rightarrow> string list \<Rightarrow> nat
                  \<Rightarrow> string list \<times> string list \<times> nat" where
  "fill_line width [] cur_line cur_len = ([], cur_line, cur_len)"
| "fill_line width (c # cs) cur_line cur_len =
     (if cur_len + length c \<le> width
      then fill_line width cs (cur_line @ [c]) (cur_len + length c)
      else (c # cs, cur_line, cur_len))"

text \<open>One pass of the outer loop over a list of chunks that is not empty: the chunks
  left and the line produced, if any. \<open>started\<close> says that \<open>lines\<close> is not empty.\<close>

definition wrap_line :: "nat \<Rightarrow> bool \<Rightarrow> string list \<Rightarrow> string list \<times> string list" where
  "wrap_line width started chunks =
     (let chunks1 = (if blank (hd chunks) \<and> started then tl chunks else chunks);
          (chunks2, cur_line, cur_len) = fill_line width chunks1 [] 0;
          (chunks3, cur_line1) =
             (if chunks2 \<noteq> [] \<and> length (hd chunks2) > width
              then (snd (handle_long_word width cur_len (hd chunks2)) # tl chunks2,
                    cur_line @ [fst (handle_long_word width cur_len (hd chunks2))])
              else (chunks2, cur_line));
          cur_line2 = (if cur_line1 \<noteq> [] \<and> blank (last cur_line1)
                       then butlast cur_line1 else cur_line1)
      in (chunks3, cur_line2))"

definition chunks_size :: "string list \<Rightarrow> nat" where
  "chunks_size chunks = length chunks + length (concat chunks)"

lemma fill_line_taken:
  "fill_line width chunks cur_line cur_len = (chunks', cur_line', cur_len')
   \<Longrightarrow> \<exists>taken. chunks = taken @ chunks' \<and> cur_line' = cur_line @ taken
         \<and> cur_len' = cur_len + length (concat taken)
         \<and> (cur_len \<le> width \<longrightarrow> cur_len' \<le> width)
         \<and> (chunks' \<noteq> [] \<longrightarrow> width < cur_len' + length (hd chunks'))"
proof (induction chunks arbitrary: cur_line cur_len)
  case Nil then show ?case by simp
next
  case (Cons c cs)
  show ?case
  proof (cases "cur_len + length c \<le> width")
    case True
    with Cons.prems have "fill_line width cs (cur_line @ [c]) (cur_len + length c) = (chunks', cur_line', cur_len')" by simp
    from Cons.IH[OF this] obtain taken where
      t: "cs = taken @ chunks'" "cur_line' = (cur_line @ [c]) @ taken"
         "cur_len' = cur_len + length c + length (concat taken)"
         "cur_len + length c \<le> width \<longrightarrow> cur_len' \<le> width"
         "chunks' \<noteq> [] \<longrightarrow> width < cur_len' + length (hd chunks')" by blast
    show ?thesis
      by (rule exI[of _ "c # taken"]) (use t True in simp)
  next
    case False
    with Cons.prems show ?thesis by auto
  qed
qed

lemma handle_long_word_concat:
  "fst (handle_long_word width cur_len chunk) @ snd (handle_long_word width cur_len chunk) = chunk"
  by (simp add: handle_long_word_def Let_def)



lemma handle_long_word_progress:
  "chunk \<noteq> [] \<Longrightarrow> length (snd (handle_long_word width 0 chunk)) < length chunk"
  by (cases "width < 1") (auto simp: handle_long_word_def Let_def split: option.splits)

lemma wrap_line_decreases:
  assumes "chunks \<noteq> []"
  shows "chunks_size (fst (wrap_line width started chunks)) < chunks_size chunks"
proof -
  define chunks1 where "chunks1 = (if blank (hd chunks) \<and> started then tl chunks else chunks)"
  obtain chunks2 cur_line cur_len where f: "fill_line width chunks1 [] 0 = (chunks2, cur_line, cur_len)"
    by (cases "fill_line width chunks1 [] 0") auto
  from fill_line_taken[OF f] obtain taken where
    t: "chunks1 = taken @ chunks2" "cur_len = length (concat taken)"
       "chunks2 \<noteq> [] \<longrightarrow> width < cur_len + length (hd chunks2)" by auto
  define chunks3 where "chunks3 = (if chunks2 \<noteq> [] \<and> length (hd chunks2) > width
              then snd (handle_long_word width cur_len (hd chunks2)) # tl chunks2 else chunks2)"
  have fst_eq: "fst (wrap_line width started chunks) = chunks3"
    using f by (simp add: wrap_line_def chunks1_def chunks3_def Let_def)
  have s1: "chunks_size chunks1 \<le> chunks_size chunks"
    using assms by (cases chunks) (auto simp: chunks1_def chunks_size_def)
  have s1': "chunks1 \<noteq> chunks \<Longrightarrow> chunks_size chunks1 < chunks_size chunks"
    using assms by (cases chunks) (auto simp: chunks1_def chunks_size_def split: if_splits)
  have s2: "chunks_size chunks2 \<le> chunks_size chunks1"
    using t(1) by (simp add: chunks_size_def)
  have s2': "taken \<noteq> [] \<Longrightarrow> chunks_size chunks2 < chunks_size chunks1"
    using t(1) by (cases taken) (simp_all add: chunks_size_def)
  have hl: "length (snd (handle_long_word width cur_len c)) \<le> length c" for c
    by (simp add: handle_long_word_def Let_def)
  have s3: "chunks_size chunks3 \<le> chunks_size chunks2"
    using hl[of "hd chunks2"] by (cases chunks2) (auto simp: chunks3_def chunks_size_def)
  show ?thesis
  proof (cases "chunks1 = chunks")
    case False
    from s1'[OF this] s2 s3 fst_eq show ?thesis by simp
  next
    case same: True
    show ?thesis
    proof (cases "taken = []")
      case False
      from s2'[OF this] s1 s3 fst_eq show ?thesis by simp
    next
      case True
      with t same assms have c2: "chunks2 = chunks" "cur_len = 0" "width < length (hd chunks)" by auto
      from c2 assms have ne: "hd chunks \<noteq> []" by auto
      have "chunks_size chunks3 < chunks_size chunks"
        using handle_long_word_progress[OF ne, of width] c2 assms
        by (cases chunks) (auto simp: chunks3_def chunks_size_def)
      with fst_eq show ?thesis by simp
    qed
  qed
qed

text \<open>The outer loop \<open>while chunks\<close>; it ends because every pass drops a chunk, puts one on
  the line, or cuts the first characters off a chunk that is too long.\<close>

function wrap_loop :: "nat \<Rightarrow> string list \<Rightarrow> string list \<Rightarrow> string list" where
  "wrap_loop width chunks lines =
     (if chunks = [] then lines
      else wrap_loop width (fst (wrap_line width (lines \<noteq> []) chunks))
             (if snd (wrap_line width (lines \<noteq> []) chunks) \<noteq> []
              then lines @ [concat (snd (wrap_line width (lines \<noteq> []) chunks))]
              else lines))"
  by pat_completeness auto
termination
  by (relation "measure (\<lambda>(width, chunks, lines). chunks_size chunks)")
     (simp_all add: wrap_line_decreases)

declare wrap_loop.simps [simp del]

text \<open>\<open>_wrap_chunks\<close> refuses a width that is not positive.\<close>

definition wrap_chunks :: "nat \<Rightarrow> string list \<Rightarrow> py_error + string list" where
  "wrap_chunks width chunks = (if width \<le> 0 then Inl ValueError else Inr (wrap_loop width chunks []))"

text \<open>\<open>textwrap.wrap(text, width)\<close>.\<close>

definition wrap :: "string \<Rightarrow> nat \<Rightarrow> py_error + string list" where
  "wrap text width = wrap_chunks width (split (munge_whitespace text))"

section \<open>The world of the program\<close>

text \<open>
  The program acts on the outside through four collaborators: the environment, the HTTP
  client, the link shortener and the terminal. Their answers are parameters of the model
  (\<open>ext\<close>); the calls made to them are recorded, in order, in the trace of the world. The
  answer of the shortener may depend on all that happened before.

  The article dictionaries are objects that \<open>clean_trending_article_dictionary\<close> updates
  in place, so they live in a store, at addresses; the values inside them are only read
  and are kept by value. The table drawn by \<open>tabulate\<close> and printed by \<open>click.secho\<close> is
  recorded as the list of rows handed to \<open>tabulate\<close>.
\<close>

type_synonym ref = nat

record row =
  Title :: string
  Description :: string
  URL :: string

datatype event =
    HttpGet string "(string \<times> string) list" "(string \<times> json) list"
  | Shorten json
  | Secho string "string option"
  | SechoTable "row list"

record response =
  status_code :: int
  reason :: string
  url :: string
  json_body :: "py_error + json"

record world =
  heap :: "ref \<Rightarrow> json"
  fresh :: ref
  trace :: "event list"

record ext =
  getenv :: "string \<Rightarrow> string option"
  requests_get :: "string \<Rightarrow> (string \<times> string) list \<Rightarrow> (string \<times> json) list
                   \<Rightarrow> py_error + response"
  short :: "event list \<Rightarrow> json \<Rightarrow> py_error + string"
  repr :: "json \<Rightarrow> string"

text \<open>A statement runs in a world and ends with a value or an exception, in a new
  world.\<close>

type_synonym 'a prog = "world \<Rightarrow> (py_error + 'a) \<times> world"

definition ret :: "'a \<Rightarrow> 'a prog" where
  "ret a w = (Inr a, w)"

definition throw :: "py_error \<Rightarrow> 'a prog" where
  "throw e w = (Inl e, w)"

definition lift :: "py_error + 'a \<Rightarrow> 'a prog" where
  "lift r w = (r, w)"

definition and_then :: "'a prog \<Rightarrow> ('a \<Rightarrow> 'b prog) \<Rightarrow> 'b prog" where
  "and_then m f w = (case m w of (Inl e, w') \<Rightarrow> (Inl e, w') | (Inr a, w') \<Rightarrow> f a w')"

text \<open>\<open>try: m except HTTPError as error: h\<close>.\<close>

definition except_http :: "'a prog \<Rightarrow> (string \<Rightarrow> 'a prog) \<Rightarrow> 'a prog" where
  "except_http m h w =
     (case m w of (Inl (HTTPError msg), w') \<Rightarrow> h msg w' | (r, w') \<Rightarrow> (r, w'))"

definition emit :: "event \<Rightarrow> unit prog" where
  "emit e w = (Inr (), w\<lparr>trace := trace w @ [e]\<rparr>)"

text \<open>\<open>obj[k]\<close> and \<open>obj[k] = v\<close> on the object at an address.\<close>

definition subscript :: "ref \<Rightarrow> string \<Rightarrow> json prog" where
  "subscript r k w = (getitem (heap w r) k, w)"

definition setitem :: "ref \<Rightarrow> string \<Rightarrow> json \<Rightarrow> unit prog" where
  "setitem r k v w =
     (case heap w r of
        JObj d \<Rightarrow> (Inr (), w\<lparr>heap := (heap w)(r := JObj (dict_set k v d))\<rparr>)
      | _ \<Rightarrow> (Inl TypeError, w))"

text \<open>A new object at the next address that is not in use.\<close>

definition alloc :: "json \<Rightarrow> ref prog" where
  "alloc v w = (Inr (fresh w), w\<lparr>heap := (heap w)(fresh w := v), fresh := fresh w + 1\<rparr>)"

fun alloc_all :: "json list \<Rightarrow> ref list prog" where
  "alloc_all [] = ret []"
| "alloc_all (v # vs) =
     and_then (alloc v) (\<lambda>r. and_then (alloc_all vs) (\<lambda>rs. ret (r # rs)))"

text \<open>\<open>shortener.qpsru.short(u)\<close> and \<open>requests.get(search_url, headers=headers,
  params=params)\<close>: the call is recorded, the answer is the collaborator's.\<close>

definition shorten :: "ext \<Rightarrow> json \<Rightarrow> string prog" where
  "shorten x u w = (short x (trace w) u, w\<lparr>trace := trace w @ [Shorten u]\<rparr>)"

definition http_get :: "ext \<Rightarrow> string \<Rightarrow> (string \<times> string) list \<Rightarrow> (string \<times> json) list
                        \<Rightarrow> response prog" where
  "http_get x search_url headers params w =
     (requests_get x search_url headers params,
      w\<lparr>trace := trace w @ [HttpGet search_url headers params]\<rparr>)"

text \<open>\<open>response.raise_for_status()\<close> of requests: an \<open>HTTPError\<close> for a status from 400 to
  599, nothing otherwise.\<close>

definition raise_for_status :: "response \<Rightarrow> py_error + unit" where
  "raise_for_status r =
     (if 400 \<le> status_code r \<and> status_code r < 500
      then Inl (HTTPError (str_int (status_code r) @ '' Client Error: '' @ reason r
                           @ '' for url: '' @ url r))
      else if 500 \<le> status_code r \<and> status_code r < 600
      then Inl (HTTPError (str_int (status_code r) @ '' Server Error: '' @ reason r
                           @ '' for url: '' @ url r))
      else Inr ())"

text \<open>\<open>textwrap.wrap(v, width=width)\<close> on a value: only a string has \<open>expandtabs\<close>.\<close>

fun wrap_value :: "json \<Rightarrow> nat \<Rightarrow> py_error + string list" where
  "wrap_value (JStr s) width = wrap s width"
| "wrap_value JNull width = Inl AttributeError"
| "wrap_value (JBool b) width = Inl AttributeError"
| "wrap_value (JInt i) width = Inl AttributeError"
| "wrap_value (JArr xs) width = Inl AttributeError"
| "wrap_value (JObj d) width = Inl AttributeError"

text \<open>\<open>"\n".join(lines)\<close>.\<close>

fun join :: "string list \<Rightarrow> string" where
  "join [] = []"
| "join [l] = l"
| "join (l # m # ls) = l @ CHR 0x0A # join (m # ls)"

section \<open>The program\<close>

definition clean_trending_article_dictionary :: "ext \<Rightarrow> ref \<Rightarrow> ref prog" where
  "clean_trending_article_dictionary x article_dictionary =
     and_then (subscript article_dictionary ''image'') (\<lambda>image.
     and_then (lift (getitem image ''provider'')) (\<lambda>provider.
     and_then (lift (getitem0 provider)) (\<lambda>source.
     and_then (subscript article_dictionary ''name'') (\<lambda>name.
     and_then (setitem article_dictionary ''title'' name) (\<lambda>_.
     and_then (subscript article_dictionary ''webSearchUrl'') (\<lambda>web_search_url.
     and_then (setitem article_dictionary ''url'' web_search_url) (\<lambda>_.
     and_then (lift (getitem source ''name'')) (\<lambda>source_name.
     and_then (lift (getitem source ''_type'')) (\<lambda>source_type.
     and_then (setitem article_dictionary ''description''
                 (JStr (''Provided by '' @ py_str (repr x) source_name @ '', an ''
                        @ py_str (repr x) source_type @ ''.''))) (\<lambda>_.
     ret article_dictionary))))))))))"

text \<open>The test \<open>"name" in item and "webSearchUrl" in item\<close>.\<close>

definition is_trending :: "json \<Rightarrow> py_error + bool" where
  "is_trending item =
     (case py_in ''name'' item of
        Inl e \<Rightarrow> Inl e
      | Inr has_name \<Rightarrow> if has_name then py_in ''webSearchUrl'' item else Inr False)"

text \<open>The dictionary literal of the loop of \<open>clean_bing_article_list\<close>: the row built from
  an item.\<close>

definition new_dictionary :: "ext \<Rightarrow> ref \<Rightarrow> row prog" where
  "new_dictionary x item =
     and_then (subscript item ''name'') (\<lambda>name.
     and_then (lift (wrap_value name 40)) (\<lambda>title_lines.
     and_then (subscript item ''description'') (\<lambda>description.
     and_then (lift (wrap_value description 60)) (\<lambda>description_lines.
     and_then (subscript item ''url'') (\<lambda>u.
     and_then (shorten x u) (\<lambda>short_url.
     ret \<lparr>Title = join title_lines, Description = join description_lines,
          URL = short_url\<rparr>))))))"

text \<open>The body of the loop.\<close>

definition clean_item :: "ext \<Rightarrow> ref \<Rightarrow> row prog" where
  "clean_item x item =
     and_then (\<lambda>w. (is_trending (heap w item), w)) (\<lambda>trending.
     and_then (if trending then clean_trending_article_dictionary x item else ret item)
       (new_dictionary x))"

fun clean_loop :: "ext \<Rightarrow> ref list \<Rightarrow> row list \<Rightarrow> row list prog" where
  "clean_loop x [] cleaned_list = ret cleaned_list"
| "clean_loop x (item # items) cleaned_list =
     and_then (clean_item x item) (\<lambda>new_dictionary.
       clean_loop x items (cleaned_list @ [new_dictionary]))"

definition clean_bing_article_list :: "ext \<Rightarrow> ref list \<Rightarrow> row list prog" where
  "clean_bing_article_list x bing_article_list = clean_loop x bing_article_list []"

text \<open>\<open>print_bing_results\<close>. The elements of \<open>articles\<close> are the objects that the loop of
  \<open>clean_bing_article_list\<close> visits; they enter the store here.\<close>

definition print_bing_results :: "ext \<Rightarrow> json \<Rightarrow> unit prog" where
  "print_bing_results x bing_response_json =
     and_then (lift (py_in ''value'' bing_response_json)) (\<lambda>has_value.
     if \<not> has_value then throw AssertionError else
     and_then (lift (getitem bing_response_json ''value'')) (\<lambda>articles.
     and_then (lift (py_iter articles)) (\<lambda>items.
     and_then (alloc_all items) (\<lambda>bing_article_list.
     and_then (clean_bing_article_list x bing_article_list) (\<lambda>cleaned_articles.
     and_then (emit (SechoTable cleaned_articles)) (\<lambda>_.
     and_then (lift (py_in ''totalEstimatedMatches'' bing_response_json)) (\<lambda>has_total.
     if has_total then
       and_then (lift (getitem bing_response_json ''totalEstimatedMatches'')) (\<lambda>total.
         emit (Secho (py_str (repr x) total @ '' estimated matches.'') None))
     else ret ())))))))"

definition search_and_output_bing ::
    "ext \<Rightarrow> string \<Rightarrow> (string \<times> json) list option \<Rightarrow> unit prog" where
  "search_and_output_bing x query_string params =
     (case getenv x ''BING_SEARCH_KEY'' of
        None \<Rightarrow> throw AssertionError
      | Some subscription_key \<Rightarrow>
     (case getenv x ''BING_SEARCH_ENDPOINT'' of
        None \<Rightarrow> throw AssertionError
      | Some bing_search_endpoint \<Rightarrow>
     and_then (http_get x (bing_search_endpoint @ ''v7.0/news'' @ query_string)
                 [(''Ocp-Apim-Subscription-Key'', subscription_key)]
                 (case params of None \<Rightarrow> [] | Some ps \<Rightarrow> ps)) (\<lambda>response.
     except_http
       (and_then (lift (raise_for_status response)) (\<lambda>_.
        and_then (lift (json_body response)) (\<lambda>body.
        print_bing_results x body)))
       (\<lambda>error. emit (Secho (''Error: '' @ error) (Some ''red''))))))"

definition search_bing_by_phrase :: "ext \<Rightarrow> string \<Rightarrow> unit prog" where
  "search_bing_by_phrase x search_phrase =
     and_then (emit (Secho (''Searching for '' @ search_phrase @ ''...'') None)) (\<lambda>_.
     search_and_output_bing x ''/search''
       (Some [(''q'', JStr search_phrase), (''textDecorations'', JBool False)]))"

definition search_bing_by_category :: "ext \<Rightarrow> string \<Rightarrow> string \<Rightarrow> unit prog" where
  "search_bing_by_category x category market =
     and_then (emit (Secho (''Searching for '' @ category @ '' in '' @ market @ ''...'') None))
       (\<lambda>_.
     search_and_output_bing x (''?mkt='' @ market @ ''&category='' @ category) None)"

definition search_bing_by_trending :: "ext \<Rightarrow> string \<Rightarrow> unit prog" where
  "search_bing_by_trending x market =
     and_then (emit (Secho (''Searching for trending topics in '' @ market @ ''...'') None))
       (\<lambda>_.
     search_and_output_bing x (''/trendingtopics?mkt='' @ market) None)"

text \<open>The exit status of the process: 0 when the command returns, 1 when an exception
  leaves it.\<close>

definition exit_status :: "(py_error + unit) \<times> world \<Rightarrow> int" where
  "exit_status r = (case fst r of Inl e \<Rightarrow> 1 | Inr u \<Rightarrow> 0)"

section \<open>The rows of a list of articles\<close>

text \<open>
  What the table is expected to hold, read off the articles themselves. A cell is the
  text wrapped at a positive width, the lines joined by line breaks.
\<close>

definition fill :: "string \<Rightarrow> nat \<Rightarrow> string" where
  "fill text width = join (wrap_loop width (split (munge_whitespace text)) [])"

text \<open>The three values that a row is built from: the name, the description and the link
  of a standard record that has them (name and description being strings), or the name,
  the synthesized description and the \<open>webSearchUrl\<close> of a trending record whose first
  provider has a \<open>name\<close> and a \<open>_type\<close>. Any other value has none.\<close>

definition view :: "ext \<Rightarrow> json \<Rightarrow> (string \<times> string \<times> json) option" where
  "view x a =
     (case a of
        JObj d \<Rightarrow>
          if ''name'' \<in> set (map fst d) \<and> ''webSearchUrl'' \<in> set (map fst d) then
            (case (map_of d ''name'', map_of d ''webSearchUrl'', getitem a ''image'') of
               (Some (JStr name), Some web_search_url, Inr img) \<Rightarrow>
                 (case getitem img ''provider'' of
                    Inr provider \<Rightarrow>
                      (case getitem0 provider of
                         Inr source \<Rightarrow>
                           (case (getitem source ''name'', getitem source ''_type'') of
                              (Inr source_name, Inr source_type) \<Rightarrow>
                                Some (name,
                                      ''Provided by '' @ py_str (repr x) source_name @ '', an ''
                                        @ py_str (repr x) source_type @ ''.'',
                                      web_search_url)
                            | _ \<Rightarrow> None)
                       | _ \<Rightarrow> None)
                  | _ \<Rightarrow> None)
             | _ \<Rightarrow> None)
          else
            (case (map_of d ''name'', map_of d ''description'', map_of d ''url'') of
               (Some (JStr name), Some (JStr description), Some u) \<Rightarrow> Some (name, description, u)
             | _ \<Rightarrow> None)
      | _ \<Rightarrow> None)"

definition url_of :: "ext \<Rightarrow> json \<Rightarrow> json" where
  "url_of x a = (case view x a of Some (name, description, u) \<Rightarrow> u | None \<Rightarrow> JNull)"

text \<open>The rows of a list of articles, when every article has its three values and the
  shortener answers every call; \<open>tr\<close> is the trace before the first call.\<close>

fun rows_of :: "ext \<Rightarrow> event list \<Rightarrow> json list \<Rightarrow> row list option" where
  "rows_of x tr [] = Some []"
| "rows_of x tr (a # as) =
     (case view x a of
        None \<Rightarrow> None
      | Some (name, description, u) \<Rightarrow>
          (case short x tr u of
             Inl e \<Rightarrow> None
           | Inr short_url \<Rightarrow>
               (case rows_of x (tr @ [Shorten u]) as of
                  None \<Rightarrow> None
                | Some rows \<Rightarrow>
                    Some (\<lparr>Title = fill name 40, Description = fill description 60,
                           URL = short_url\<rparr> # rows))))"

text \<open>The line printed after the table when the response has a
  \<open>totalEstimatedMatches\<close>.\<close>

definition total_line :: "ext \<Rightarrow> (string \<times> json) list \<Rightarrow> event list" where
  "total_line x d =
     (case map_of d ''totalEstimatedMatches'' of
        None \<Rightarrow> []
      | Some matches \<Rightarrow> [Secho (py_str (repr x) matches @ '' estimated matches.'') None])"

section \<open>Chunks and words of a text\<close>





section \<open>What a run adds to the trace\<close>

text \<open>The events that are HTTP requests of the program itself.\<close>

definition is_request :: "event \<Rightarrow> bool" where
  "is_request e = (case e of HttpGet u h p \<Rightarrow> True | _ \<Rightarrow> False)"

text \<open>\<open>adds P m\<close>: whatever the world and the outcome, \<open>m\<close> only appends to the trace, and
  every event it appends satisfies \<open>P\<close>.\<close>

definition adds :: "(event \<Rightarrow> bool) \<Rightarrow> 'a prog \<Rightarrow> bool" where
  "adds P m = (\<forall>w. \<exists>evs. trace (snd (m w)) = trace w @ evs \<and> list_all P evs)"

section \<open>Sample collaborators\<close>

text \<open>A world with an empty store and nothing done yet, and collaborators that always
  answer: both environment variables are set, the server answers 200 with an empty list
  of articles, the shortener answers with a fixed link.\<close>

definition world0 :: world where
  "world0 = \<lparr>heap = (\<lambda>r. JNull), fresh = 0, trace = []\<rparr>"

definition ext0 :: ext where
  "ext0 = \<lparr>getenv = [''BING_SEARCH_KEY'' \<mapsto> ''k'', ''BING_SEARCH_ENDPOINT'' \<mapsto> ''https://bing/''],
           requests_get = (\<lambda>u h p. Inr \<lparr>status_code = 200, reason = ''OK'', url = u,
                                         json_body = Inr (JObj [(''value'', JArr [])])\<rparr>),
           short = (\<lambda>tr u. Inr ''https://qps.ru/a''),
           repr = (\<lambda>v. ''?'')\<rparr>"

text \<open>A trending record as the spec gives it, a standard record (with an empty provider
  list, which a standard record never reads), and a world whose store holds one value at
  every address.\<close>

definition reuters_fields :: "(string \<times> json) list" where
  "reuters_fields =
     [(''name'', JStr ''Storm''), (''webSearchUrl'', JStr ''https://bing/s?q=storm''),
      (''image'', JObj [(''provider'',
          JArr [JObj [(''name'', JStr ''Reuters''), (''_type'', JStr ''Organization'')]])])]"

definition standard_fields :: "(string \<times> json) list" where
  "standard_fields =
     [(''name'', JStr ''Rain''), (''url'', JStr ''https://news/rain''),
      (''description'', JStr ''Rain is expected''),
      (''image'', JObj [(''provider'', JArr [])])]"

definition world_of :: "json \<Rightarrow> world" where
  "world_of v = \<lparr>heap = (\<lambda>r. v), fresh = 1, trace = []\<rparr>"

text \<open>The sample collaborators with a server that answers every request with a given
  status, and a body that holds a list of one standard article.\<close>

definition ext_status :: "int \<Rightarrow> string \<Rightarrow> ext" where
  "ext_status code phrase =
     ext0\<lparr>requests_get := (\<lambda>u h p. Inr \<lparr>status_code = code, reason = phrase, url = u,
                                          json_body = Inr (JObj [(''value'',
                                                            JArr [JObj standard_fields])])\<rparr>)\<rparr>"



text \<open>A trending record whose provider list is empty.\<close>

definition empty_provider_fields :: "(string \<times> json) list" where
  "empty_provider_fields =
     [(''name'', JStr ''Storm''), (''webSearchUrl'', JStr ''https://bing/s?q=storm''),
      (''image'', JObj [(''provider'', JArr [])])]"

section \<open>Properties\<close>

subsection \<open>Dictionaries and sequencing\<close>

lemma map_of_dict_set: "map_of (dict_set k v d) k' = (if k' = k then Some v else map_of d k')"
  by (induction d) auto

lemma keys_dict_set: "set (map fst (dict_set k v d)) = insert k (set (map fst d))"
  by (induction d) auto

lemma map_of_keys: "(k \<in> set (map fst d)) = (map_of d k \<noteq> None)"
  by (induction d) auto

lemma and_then_lift_Inr: "and_then (lift (Inr a)) f w = f a w"
  by (simp add: and_then_def lift_def)

lemma and_then_lift_Inl: "and_then (lift (Inl e)) f w = (Inl e, w)"
  by (simp add: and_then_def lift_def)

lemma and_then_ret: "and_then (ret a) f w = f a w"
  by (simp add: and_then_def ret_def)

lemma and_then_throw: "and_then (throw e) f w = (Inl e, w)"
  by (simp add: and_then_def throw_def)

lemma and_then_emit: "and_then (emit e) f w = f () (w\<lparr>trace := trace w @ [e]\<rparr>)"
  by (simp add: and_then_def emit_def)

lemma and_then_subscript: "and_then (subscript r k) f w = (case getitem (heap w r) k of Inl e \<Rightarrow> (Inl e, w) | Inr v \<Rightarrow> f v w)"
  by (simp add: and_then_def subscript_def split: sum.splits)

lemma and_then_setitem_obj:
  "heap w r = JObj d \<Longrightarrow> and_then (setitem r k v) f w = f () (w\<lparr>heap := (heap w)(r := JObj (dict_set k v d))\<rparr>)"
  by (simp add: and_then_def setitem_def)

lemmas prog_simps = and_then_lift_Inr and_then_lift_Inl and_then_ret and_then_throw and_then_emit
  and_then_subscript

lemma clean_trending_ok:
  assumes "heap w r = JObj d" "map_of d ''image'' = Some img"
    "getitem img ''provider'' = Inr provider" "getitem0 provider = Inr source"
    "map_of d ''name'' = Some name" "map_of d ''webSearchUrl'' = Some u"
    "getitem source ''name'' = Inr sn" "getitem source ''_type'' = Inr st"
  shows "clean_trending_article_dictionary x r w =
     (Inr r, w\<lparr>heap := (heap w)(r := JObj
        (dict_set ''description'' (JStr (''Provided by '' @ py_str (repr x) sn @ '', an '' @ py_str (repr x) st @ ''.''))
           (dict_set ''url'' u (dict_set ''title'' name d))))\<rparr>)"
  using assms
  by (simp add: clean_trending_article_dictionary_def prog_simps and_then_setitem_obj map_of_dict_set ret_def)

lemma is_trending_obj:
  "is_trending (JObj d) = Inr (''name'' \<in> set (map fst d) \<and> ''webSearchUrl'' \<in> set (map fst d))"
  by (simp add: is_trending_def)

lemma new_dictionary_obj:
  "heap w item = JObj d \<Longrightarrow>
   new_dictionary x item w =
     (case map_of d ''name'' of None \<Rightarrow> (Inl (KeyError (JStr ''name'')), w) | Some name \<Rightarrow>
      case wrap_value name 40 of Inl e \<Rightarrow> (Inl e, w) | Inr title_lines \<Rightarrow>
      case map_of d ''description'' of None \<Rightarrow> (Inl (KeyError (JStr ''description'')), w) | Some description \<Rightarrow>
      case wrap_value description 60 of Inl e \<Rightarrow> (Inl e, w) | Inr description_lines \<Rightarrow>
      case map_of d ''url'' of None \<Rightarrow> (Inl (KeyError (JStr ''url'')), w) | Some u \<Rightarrow>
      (case short x (trace w) u of Inl e \<Rightarrow> Inl e
         | Inr short_url \<Rightarrow> Inr \<lparr>Title = join title_lines, Description = join description_lines, URL = short_url\<rparr>,
       w\<lparr>trace := trace w @ [Shorten u]\<rparr>))"
  by (simp add: new_dictionary_def and_then_def subscript_def lift_def shorten_def ret_def split: option.splits sum.splits)

subsection \<open>Validation of the response\<close>

text \<open>
  C2. A response object without the key \<open>value\<close> fails the assertion of
  \<open>print_bing_results\<close>, and the world is left as it was: no article has entered the
  store, none was classified or updated, the shortener was not called and nothing was
  printed.
\<close>

theorem C2_missing_value_fails_first:
  "''value'' \<notin> set (map fst d) \<Longrightarrow> print_bing_results x (JObj d) w = (Inl AssertionError, w)"
  by (simp add: print_bing_results_def prog_simps throw_def)

theorem C2_missing_value_witness:
  "''value'' \<notin> set (map fst [(''totalEstimatedMatches'', JInt 3)])
   \<and> print_bing_results ext0 (JObj [(''totalEstimatedMatches'', JInt 3)]) world0
       = (Inl AssertionError, world0)"
  using C2_missing_value_fails_first [of "[(''totalEstimatedMatches'', JInt 3)]" ext0 world0]
  by simp

subsection \<open>The environment\<close>

text \<open>
  C8. When \<open>BING_SEARCH_KEY\<close> or \<open>BING_SEARCH_ENDPOINT\<close> is not set,
  \<open>search_and_output_bing\<close> fails its assertion in an unchanged world, and each of the
  three commands ends with that failure after its \<open>Searching for\<close> line only: the trace
  gets no \<open>HttpGet\<close>.
\<close>

theorem C8_missing_environment_stops_before_request:
  assumes "getenv x ''BING_SEARCH_KEY'' = None \<or> getenv x ''BING_SEARCH_ENDPOINT'' = None"
  shows "search_and_output_bing x query_string params w = (Inl AssertionError, w)
    \<and> search_bing_by_phrase x search_phrase w
        = (Inl AssertionError,
           w\<lparr>trace := trace w @ [Secho (''Searching for '' @ search_phrase @ ''...'') None]\<rparr>)
    \<and> search_bing_by_category x category market w
        = (Inl AssertionError,
           w\<lparr>trace := trace w
              @ [Secho (''Searching for '' @ category @ '' in '' @ market @ ''...'') None]\<rparr>)
    \<and> search_bing_by_trending x market w
        = (Inl AssertionError,
           w\<lparr>trace := trace w
              @ [Secho (''Searching for trending topics in '' @ market @ ''...'') None]\<rparr>)"
proof -
  have s: "search_and_output_bing x q ps v = (Inl AssertionError, v)" for q ps v
    using assms by (auto simp: search_and_output_bing_def throw_def split: option.splits)
  show ?thesis
    by (simp add: s search_bing_by_phrase_def search_bing_by_category_def
        search_bing_by_trending_def and_then_emit)
qed

theorem C8_missing_environment_witness:
  "(getenv (ext0\<lparr>getenv := [''BING_SEARCH_KEY'' \<mapsto> ''k'']\<rparr>) ''BING_SEARCH_KEY'' = None
     \<or> getenv (ext0\<lparr>getenv := [''BING_SEARCH_KEY'' \<mapsto> ''k'']\<rparr>) ''BING_SEARCH_ENDPOINT'' = None)
   \<and> search_bing_by_trending (ext0\<lparr>getenv := [''BING_SEARCH_KEY'' \<mapsto> ''k'']\<rparr>) ''en-GB'' world0
       = (Inl AssertionError,
          world0\<lparr>trace := [Secho ''Searching for trending topics in en-GB...'' None]\<rparr>)
   \<and> exit_status (search_bing_by_trending (ext0\<lparr>getenv := [''BING_SEARCH_KEY'' \<mapsto> ''k'']\<rparr>) ''en-GB'' world0) = 1"
proof -
  have h: "getenv (ext0\<lparr>getenv := [''BING_SEARCH_KEY'' \<mapsto> ''k'']\<rparr>) ''BING_SEARCH_KEY'' = None
     \<or> getenv (ext0\<lparr>getenv := [''BING_SEARCH_KEY'' \<mapsto> ''k'']\<rparr>) ''BING_SEARCH_ENDPOINT'' = None"
    by simp
  show ?thesis
    using h C8_missing_environment_stops_before_request [OF h, of "''''" None world0 "''''" "''''" "''en-GB''"]
    by (simp add: exit_status_def world0_def)
qed

subsection \<open>Classification and normalization of a record\<close>

text \<open>
  C3. For an item that is a dictionary, the test of the loop holds exactly when the
  dictionary has both keys \<open>name\<close> and \<open>webSearchUrl\<close>. Then the row is built after
  \<open>clean_trending_article_dictionary\<close>; otherwise it is built from the item as it is, in
  the world as it is. Setting any other key (\<open>image\<close> among them) does not change the
  outcome of the test.
\<close>

theorem C3_classification:
  assumes "heap w item = JObj d"
  shows "is_trending (heap w item)
           = Inr (''name'' \<in> set (map fst d) \<and> ''webSearchUrl'' \<in> set (map fst d))
     \<and> clean_item x item w =
         (if ''name'' \<in> set (map fst d) \<and> ''webSearchUrl'' \<in> set (map fst d)
          then and_then (clean_trending_article_dictionary x item) (new_dictionary x) w
          else new_dictionary x item w)
     \<and> (\<forall>k v. k \<noteq> ''name'' \<and> k \<noteq> ''webSearchUrl''
            \<longrightarrow> is_trending (JObj (dict_set k v d)) = is_trending (JObj d))"
  using assms
  by (auto simp add: clean_item_def is_trending_obj and_then_def ret_def keys_dict_set simp del: set_map)

theorem C3_classification_witness:
  "is_trending (heap (world_of (JObj standard_fields)) 0) = Inr False
   \<and> clean_item ext0 0 (world_of (JObj standard_fields))
       = new_dictionary ext0 0 (world_of (JObj standard_fields))
   \<and> is_trending (heap (world_of (JObj reuters_fields)) 0) = Inr True
   \<and> clean_item ext0 0 (world_of (JObj reuters_fields))
       = and_then (clean_trending_article_dictionary ext0 0) (new_dictionary ext0)
           (world_of (JObj reuters_fields))"
  using C3_classification [of "world_of (JObj standard_fields)" 0 standard_fields ext0]
    C3_classification [of "world_of (JObj reuters_fields)" 0 reuters_fields ext0]
  by (simp add: world_of_def standard_fields_def reuters_fields_def)

text \<open>
  C4. On a trending record whose \<open>image.provider\<close> list has a first entry with a \<open>name\<close> and
  a \<open>_type\<close>, normalization returns, and afterwards the record's \<open>url\<close> is its
  \<open>webSearchUrl\<close> and its \<open>description\<close> is \<open>Provided by {name}, an {_type}.\<close> of that first
  entry. With the provider \<open>Reuters\<close> of type \<open>Organization\<close> the description is
  \<open>Provided by Reuters, an Organization.\<close>
\<close>

theorem C4_trending_url_and_description:
  assumes "heap w r = JObj d"
    and "map_of d ''name'' = Some name"
    and "map_of d ''webSearchUrl'' = Some web_search_url"
    and "map_of d ''image'' = Some img"
    and "getitem img ''provider'' = Inr (JArr (source # sources))"
    and "getitem source ''name'' = Inr source_name"
    and "getitem source ''_type'' = Inr source_type"
  shows "\<exists>w'. clean_trending_article_dictionary x r w = (Inr r, w')
     \<and> getitem (heap w' r) ''url'' = Inr web_search_url
     \<and> getitem (heap w' r) ''description''
         = Inr (JStr (''Provided by '' @ py_str (repr x) source_name @ '', an ''
                      @ py_str (repr x) source_type @ ''.''))"
proof -
  have "getitem0 (JArr (source # sources)) = Inr source" by simp
  from clean_trending_ok [OF assms(1) assms(4) assms(5) this assms(2) assms(3) assms(6) assms(7), of x]
  show ?thesis by (simp add: map_of_dict_set)
qed

theorem C4_reuters_witness:
  "\<exists>w'. clean_trending_article_dictionary ext0 0 (world_of (JObj reuters_fields)) = (Inr 0, w')
     \<and> getitem (heap w' 0) ''url'' = Inr (JStr ''https://bing/s?q=storm'')
     \<and> getitem (heap w' 0) ''description''
         = Inr (JStr ''Provided by Reuters, an Organization.'')"
  using C4_trending_url_and_description [of "world_of (JObj reuters_fields)" 0 reuters_fields
      "JStr ''Storm''" "JStr ''https://bing/s?q=storm''"
      "JObj [(''provider'',
          JArr [JObj [(''name'', JStr ''Reuters''), (''_type'', JStr ''Organization'')]])]"
      "JObj [(''name'', JStr ''Reuters''), (''_type'', JStr ''Organization'')]" "[]"
      "JStr ''Reuters''" "JStr ''Organization''" ext0]
  by (simp add: reuters_fields_def world_of_def)

text \<open>
  C10. Normalization of a trending record works in place: it returns the address it was
  given, and the only change of the world is the dictionary at that address, where
  \<open>title\<close>, \<open>url\<close> and \<open>description\<close> are set (whatever they were bound to before) and
  every other key is as it was. The key \<open>title\<close> is never read: the row built from the
  updated record is the same whatever \<open>title\<close> is bound to.
\<close>

theorem C10_trending_update_in_place:
  assumes "heap w r = JObj d"
    and "map_of d ''name'' = Some name"
    and "map_of d ''webSearchUrl'' = Some web_search_url"
    and "map_of d ''image'' = Some img"
    and "getitem img ''provider'' = Inr provider"
    and "getitem0 provider = Inr source"
    and "getitem source ''name'' = Inr source_name"
    and "getitem source ''_type'' = Inr source_type"
  shows "\<exists>d'. clean_trending_article_dictionary x r w
               = (Inr r, w\<lparr>heap := (heap w)(r := JObj d')\<rparr>)
     \<and> map_of d' ''title'' = Some name
     \<and> map_of d' ''url'' = Some web_search_url
     \<and> map_of d' ''description''
         = Some (JStr (''Provided by '' @ py_str (repr x) source_name @ '', an ''
                       @ py_str (repr x) source_type @ ''.''))
     \<and> (\<forall>k. k \<notin> {''title'', ''url'', ''description''} \<longrightarrow> map_of d' k = map_of d k)
     \<and> set (map fst d') = set (map fst d) \<union> {''title'', ''url'', ''description''}
     \<and> (\<forall>v. fst (new_dictionary x r (w\<lparr>heap := (heap w)(r := JObj (dict_set ''title'' v d'))\<rparr>))
             = fst (new_dictionary x r (w\<lparr>heap := (heap w)(r := JObj d')\<rparr>)))"
proof -
  let ?d' = "dict_set ''description'' (JStr (''Provided by '' @ py_str (repr x) source_name @ '', an '' @ py_str (repr x) source_type @ ''.''))
           (dict_set ''url'' web_search_url (dict_set ''title'' name d))"
  have run: "clean_trending_article_dictionary x r w = (Inr r, w\<lparr>heap := (heap w)(r := JObj ?d')\<rparr>)"
    by (rule clean_trending_ok [OF assms(1) assms(4) assms(5) assms(6) assms(2) assms(3) assms(7) assms(8)])
  have look: "map_of ?d' ''title'' = Some name" "map_of ?d' ''url'' = Some web_search_url"
    "map_of ?d' ''description'' = Some (JStr (''Provided by '' @ py_str (repr x) source_name @ '', an '' @ py_str (repr x) source_type @ ''.''))"
    by (simp_all add: map_of_dict_set)
  have others: "\<forall>k. k \<notin> {''title'', ''url'', ''description''} \<longrightarrow> map_of ?d' k = map_of d k"
    by (simp add: map_of_dict_set)
  have keys: "set (map fst ?d') = set (map fst d) \<union> {''title'', ''url'', ''description''}"
    by (simp only: keys_dict_set) blast
  have unread: "fst (new_dictionary x r (w\<lparr>heap := (heap w)(r := JObj (dict_set ''title'' v ?d'))\<rparr>))
             = fst (new_dictionary x r (w\<lparr>heap := (heap w)(r := JObj ?d')\<rparr>))" for v
    by (simp add: new_dictionary_obj map_of_dict_set split: option.splits sum.splits)
  from run look others keys unread show ?thesis by blast
qed

theorem C10_trending_update_witness:
  "\<exists>d'. clean_trending_article_dictionary ext0 0 (world_of (JObj reuters_fields))
            = (Inr 0, (world_of (JObj reuters_fields))
                        \<lparr>heap := (heap (world_of (JObj reuters_fields)))(0 := JObj d')\<rparr>)
     \<and> map_of d' ''title'' = Some (JStr ''Storm'')
     \<and> map_of d' ''url'' = Some (JStr ''https://bing/s?q=storm'')
     \<and> map_of d' ''description'' = Some (JStr ''Provided by Reuters, an Organization.'')
     \<and> set (map fst d') = {''name'', ''webSearchUrl'', ''image'', ''title'', ''url'', ''description''}"
proof -
  from C10_trending_update_in_place [of "world_of (JObj reuters_fields)" 0 reuters_fields
      "JStr ''Storm''" "JStr ''https://bing/s?q=storm''"
      "JObj [(''provider'',
          JArr [JObj [(''name'', JStr ''Reuters''), (''_type'', JStr ''Organization'')]])]"
      "JArr [JObj [(''name'', JStr ''Reuters''), (''_type'', JStr ''Organization'')]]"
      "JObj [(''name'', JStr ''Reuters''), (''_type'', JStr ''Organization'')]"
      "JStr ''Reuters''" "JStr ''Organization''" ext0]
  obtain d' where
    "clean_trending_article_dictionary ext0 0 (world_of (JObj reuters_fields))
       = (Inr 0, (world_of (JObj reuters_fields))
                   \<lparr>heap := (heap (world_of (JObj reuters_fields)))(0 := JObj d')\<rparr>)"
    "map_of d' ''title'' = Some (JStr ''Storm'')"
    "map_of d' ''url'' = Some (JStr ''https://bing/s?q=storm'')"
    "map_of d' ''description'' = Some (JStr ''Provided by Reuters, an Organization.'')"
    "set (map fst d') = set (map fst reuters_fields) \<union> {''title'', ''url'', ''description''}"
    by (auto simp add: reuters_fields_def world_of_def simp del: set_map)
  moreover have "set (map fst reuters_fields) \<union> {''title'', ''url'', ''description''}
      = {''name'', ''webSearchUrl'', ''image'', ''title'', ''url'', ''description''}"
    by (auto simp add: reuters_fields_def)
  ultimately show ?thesis by (intro exI [of _ d']) simp
qed

subsection \<open>The loop over the articles\<close>

lemma wrap_value_str: "0 < width \<Longrightarrow> wrap s width = Inr (wrap_loop width (split (munge_whitespace s)) [])"
  by (simp add: wrap_def wrap_chunks_def)

lemma clean_item_view:
  assumes "view x (heap w r) = Some (name, description, u)"
  shows "\<exists>w'. clean_item x r w =
            (case short x (trace w) u of
               Inl e \<Rightarrow> Inl e
             | Inr short_url \<Rightarrow> Inr \<lparr>Title = fill name 40, Description = fill description 60,
                                     URL = short_url\<rparr>, w')
         \<and> trace w' = trace w @ [Shorten u] \<and> fresh w' = fresh w
         \<and> (\<forall>r'. r' \<noteq> r \<longrightarrow> heap w' r' = heap w r')"
proof -
  from assms obtain d where d: "heap w r = JObj d"
    by (cases "heap w r") (simp_all add: view_def)
  show ?thesis
  proof (cases "''name'' \<in> set (map fst d) \<and> ''webSearchUrl'' \<in> set (map fst d)")
    case False
    with assms d have f: "map_of d ''name'' = Some (JStr name)"
      "map_of d ''description'' = Some (JStr description)" "map_of d ''url'' = Some u"
      by (auto simp: view_def split: option.splits json.splits)
    have "clean_item x r w = new_dictionary x r w"
      using False d by (auto simp add: clean_item_def is_trending_obj and_then_def ret_def simp del: set_map)
    also have "\<dots> = (case short x (trace w) u of
               Inl e \<Rightarrow> Inl e
             | Inr short_url \<Rightarrow> Inr \<lparr>Title = fill name 40, Description = fill description 60,
                                     URL = short_url\<rparr>, w\<lparr>trace := trace w @ [Shorten u]\<rparr>)"
      using d f by (simp add: new_dictionary_obj wrap_value_str fill_def split: sum.splits)
    finally show ?thesis by (intro exI [of _ "w\<lparr>trace := trace w @ [Shorten u]\<rparr>"]) simp
  next
    case True
    with assms d obtain img provider source source_name source_type where
      f: "map_of d ''name'' = Some (JStr name)" "map_of d ''webSearchUrl'' = Some u"
         "map_of d ''image'' = Some img" "getitem img ''provider'' = Inr provider"
         "getitem0 provider = Inr source" "getitem source ''name'' = Inr source_name"
         "getitem source ''_type'' = Inr source_type"
         "description = ''Provided by '' @ py_str (repr x) source_name @ '', an '' @ py_str (repr x) source_type @ ''.''"
      by (auto simp: view_def split: option.splits json.splits sum.splits if_splits)
    let ?d' = "dict_set ''description'' (JStr description) (dict_set ''url'' u (dict_set ''title'' (JStr name) d))"
    let ?w1 = "w\<lparr>heap := (heap w)(r := JObj ?d')\<rparr>"
    have ct: "clean_trending_article_dictionary x r w = (Inr r, ?w1)"
      using clean_trending_ok [OF d f(3) f(4) f(5) f(1) f(2) f(6) f(7), of x] f(8) by simp
    have "clean_item x r w = new_dictionary x r ?w1"
      using True d ct by (auto simp add: clean_item_def is_trending_obj and_then_def simp del: set_map)
    also have "\<dots> = (case short x (trace w) u of
               Inl e \<Rightarrow> Inl e
             | Inr short_url \<Rightarrow> Inr \<lparr>Title = fill name 40, Description = fill description 60,
                                     URL = short_url\<rparr>, ?w1\<lparr>trace := trace w @ [Shorten u]\<rparr>)"
      using f(1) by (simp add: new_dictionary_obj [of ?w1 r ?d'] map_of_dict_set wrap_value_str fill_def split: sum.splits)
    finally show ?thesis by (intro exI [of _ "?w1\<lparr>trace := trace w @ [Shorten u]\<rparr>"]) simp
  qed
qed


lemma url_of_view: "view x a = Some (name, description, u) \<Longrightarrow> url_of x a = u"
  by (simp add: url_of_def)

lemma clean_loop_rows:
  assumes "distinct rs" "map (heap w) rs = arts" "rows_of x (trace w) arts = Some rows"
  shows "\<exists>w'. clean_loop x (rs @ rest) acc w = clean_loop x rest (acc @ rows) w'
     \<and> trace w' = trace w @ map (\<lambda>a. Shorten (url_of x a)) arts
     \<and> fresh w' = fresh w
     \<and> (\<forall>r'. r' \<notin> set rs \<longrightarrow> heap w' r' = heap w r')"
  using assms
proof (induction rs arbitrary: w acc arts rows)
  case Nil
  then show ?case by auto
next
  case (Cons r rs)
  from Cons.prems(2) obtain as where arts: "arts = heap w r # as" "map (heap w) rs = as" by auto
  from Cons.prems(3) arts obtain name description u short_url rows1 where
    v: "view x (heap w r) = Some (name, description, u)"
    and s: "short x (trace w) u = Inr short_url"
    and r1: "rows_of x (trace w @ [Shorten u]) as = Some rows1"
    and rows: "rows = \<lparr>Title = fill name 40, Description = fill description 60, URL = short_url\<rparr> # rows1"
    by (auto split: option.splits sum.splits)
  from clean_item_view [OF v] s obtain w1 where
    w1: "clean_item x r w = (Inr \<lparr>Title = fill name 40, Description = fill description 60, URL = short_url\<rparr>, w1)"
      "trace w1 = trace w @ [Shorten u]" "fresh w1 = fresh w"
      "\<forall>r'. r' \<noteq> r \<longrightarrow> heap w1 r' = heap w r'"
    by auto
  from Cons.prems(1) w1(4) arts(2) have m1: "map (heap w1) rs = as" by auto
  from Cons.prems(1) have d1: "distinct rs" by simp
  from r1 w1(2) have r1': "rows_of x (trace w1) as = Some rows1" by simp
  from Cons.IH [OF d1 m1 r1', of "acc @ [\<lparr>Title = fill name 40, Description = fill description 60, URL = short_url\<rparr>]"]
  obtain w' where
    w': "clean_loop x (rs @ rest) (acc @ [\<lparr>Title = fill name 40, Description = fill description 60, URL = short_url\<rparr>]) w1
           = clean_loop x rest (acc @ [\<lparr>Title = fill name 40, Description = fill description 60, URL = short_url\<rparr>] @ rows1) w'"
      "trace w' = trace w1 @ map (\<lambda>a. Shorten (url_of x a)) as" "fresh w' = fresh w1"
      "\<forall>r'. r' \<notin> set rs \<longrightarrow> heap w' r' = heap w1 r'"
    by auto
  have "clean_loop x ((r # rs) @ rest) acc w = clean_loop x rest (acc @ rows) w'"
    using w1(1) w'(1) rows by (simp add: and_then_def)
  moreover have "trace w' = trace w @ map (\<lambda>a. Shorten (url_of x a)) arts"
    using w'(2) w1(2) arts(1) url_of_view [OF v] by simp
  moreover have "fresh w' = fresh w" using w'(3) w1(3) by simp
  moreover have "\<forall>r'. r' \<notin> set (r # rs) \<longrightarrow> heap w' r' = heap w r'"
    using w'(4) w1(4) by simp
  ultimately show ?case by blast
qed

lemma alloc_all_refs:
  "\<exists>w'. alloc_all vs w = (Inr [fresh w ..< fresh w + length vs], w')
     \<and> trace w' = trace w \<and> fresh w' = fresh w + length vs
     \<and> map (heap w') [fresh w ..< fresh w + length vs] = vs
     \<and> (\<forall>r < fresh w. heap w' r = heap w r)"
proof (induction vs arbitrary: w)
  case Nil
  then show ?case by (simp add: ret_def)
next
  case (Cons v vs)
  let ?w1 = "w\<lparr>heap := (heap w)(fresh w := v), fresh := fresh w + 1\<rparr>"
  from Cons.IH [of ?w1] obtain w' where
    w': "alloc_all vs ?w1 = (Inr [fresh w + 1 ..< fresh w + 1 + length vs], w')"
      "trace w' = trace w" "fresh w' = fresh w + 1 + length vs"
      "map (heap w') [fresh w + 1 ..< fresh w + 1 + length vs] = vs"
      "\<forall>r < fresh w + 1. heap w' r = heap ?w1 r"
    by auto
  have u: "[fresh w ..< fresh w + length (v # vs)] = fresh w # [fresh w + 1 ..< fresh w + 1 + length vs]"
    using upt_conv_Cons [of "fresh w" "fresh w + length (v # vs)"] by simp
  have "alloc_all (v # vs) w = (Inr [fresh w ..< fresh w + length (v # vs)], w')"
    using w'(1) by (simp only: u) (simp add: and_then_def alloc_def ret_def)
  moreover have "map (heap w') [fresh w ..< fresh w + length (v # vs)] = v # vs"
    using w'(4) w'(5) by (simp only: u) simp
  moreover have "\<forall>r < fresh w. heap w' r = heap w r" using w'(5) by simp
  ultimately show ?case using w'(2) w'(3) by auto
qed

lemma rows_of_length: "rows_of x tr arts = Some rows \<Longrightarrow> length rows = length arts"
  by (induction arts arbitrary: tr rows) (auto split: option.splits sum.splits)

lemma rows_of_nth:
  "rows_of x tr arts = Some rows \<Longrightarrow> i < length arts \<Longrightarrow>
   \<exists>name description u.
      view x (arts ! i) = Some (name, description, u)
    \<and> Title (rows ! i) = fill name 40 \<and> Description (rows ! i) = fill description 60
    \<and> short x (tr @ map (\<lambda>a. Shorten (url_of x a)) (take i arts)) u = Inr (URL (rows ! i))"
proof (induction arts arbitrary: tr rows i)
  case Nil
  then show ?case by simp
next
  case (Cons a as)
  from Cons.prems(1) obtain name description u short_url rows1 where
    v: "view x a = Some (name, description, u)"
    and s: "short x tr u = Inr short_url"
    and r1: "rows_of x (tr @ [Shorten u]) as = Some rows1"
    and rows: "rows = \<lparr>Title = fill name 40, Description = fill description 60, URL = short_url\<rparr> # rows1"
    by (auto split: option.splits sum.splits)
  show ?case
  proof (cases i)
    case 0
    then show ?thesis using v s rows by simp
  next
    case (Suc j)
    with Cons.prems(2) have j: "j < length as" by simp
    from Cons.IH [OF r1 j] show ?thesis using Suc rows url_of_view [OF v] by simp
  qed
qed

lemma print_bing_results_list:
  assumes "map_of d ''value'' = Some (JArr arts)"
  shows "\<exists>rs w1. print_bing_results x (JObj d) w =
      and_then (clean_loop x rs []) (\<lambda>cleaned_articles.
        and_then (emit (SechoTable cleaned_articles)) (\<lambda>_ w. (Inr (), w\<lparr>trace := trace w @ total_line x d\<rparr>))) w1
     \<and> distinct rs \<and> map (heap w1) rs = arts \<and> trace w1 = trace w"
proof -
  from alloc_all_refs [of arts w] obtain w1 where
    w1: "alloc_all arts w = (Inr [fresh w ..< fresh w + length arts], w1)"
      "trace w1 = trace w" "map (heap w1) [fresh w ..< fresh w + length arts] = arts"
    by auto
  have k: "''value'' \<in> set (map fst d)" using assms by (simp only: map_of_keys) simp
  have t: "(if ''totalEstimatedMatches'' \<in> set (map fst d)
            then and_then (lift (getitem (JObj d) ''totalEstimatedMatches''))
                   (\<lambda>total. emit (Secho (py_str (repr x) total @ '' estimated matches.'') None))
            else ret ())
         = (\<lambda>w. (Inr (), w\<lparr>trace := trace w @ total_line x d\<rparr>))"
    by (rule ext) (auto simp add: map_of_keys total_line_def prog_simps emit_def ret_def simp del: set_map split: option.splits)
  have l: "and_then (lift (Inr b)) f = f b" for b :: bool and f :: "bool \<Rightarrow> unit prog"
    by (rule ext) (simp add: prog_simps)
  have "print_bing_results x (JObj d) w =
      and_then (clean_loop x [fresh w ..< fresh w + length arts] []) (\<lambda>cleaned_articles.
        and_then (emit (SechoTable cleaned_articles)) (\<lambda>_ w. (Inr (), w\<lparr>trace := trace w @ total_line x d\<rparr>))) w1"
    using k assms w1(1) t
    by (simp add: print_bing_results_def prog_simps l clean_bing_article_list_def and_then_def [of "alloc_all arts"] del: set_map)
  with w1 show ?thesis by (intro exI [of _ "[fresh w ..< fresh w + length arts]"] exI [of _ w1]) simp
qed

text \<open>
  C1. When the \<open>value\<close> of the response is a list of articles that each have the three
  values of a row, and the shortener answers every call, \<open>print_bing_results\<close> returns:
  it calls the shortener once per article, in the order of the list, then prints one
  table and the line of the total if there is one. The table has as many rows as the
  list has articles, and its row \<open>i\<close> is built from article \<open>i\<close>: the name wrapped at 40,
  the description wrapped at 60, and the answer of the shortener to the call made for
  that article.
\<close>

theorem C1_one_row_per_article_in_order:
  assumes "map_of d ''value'' = Some (JArr arts)"
    and "rows_of x (trace w) arts = Some rows"
  shows "\<exists>w'. print_bing_results x (JObj d) w = (Inr (), w')
     \<and> trace w' = trace w @ map (\<lambda>a. Shorten (url_of x a)) arts @ [SechoTable rows] @ total_line x d
     \<and> length rows = length arts
     \<and> (\<forall>i < length arts. \<exists>name description u.
            view x (arts ! i) = Some (name, description, u)
          \<and> Title (rows ! i) = fill name 40 \<and> Description (rows ! i) = fill description 60
          \<and> short x (trace w @ map (\<lambda>a. Shorten (url_of x a)) (take i arts)) u = Inr (URL (rows ! i)))"
proof -
  from print_bing_results_list [OF assms(1), of x w] obtain rs w1 where
    p: "print_bing_results x (JObj d) w =
      and_then (clean_loop x rs []) (\<lambda>cleaned_articles.
        and_then (emit (SechoTable cleaned_articles)) (\<lambda>_ w. (Inr (), w\<lparr>trace := trace w @ total_line x d\<rparr>))) w1"
    and rs: "distinct rs" "map (heap w1) rs = arts" "trace w1 = trace w"
    by blast
  from assms(2) rs(3) have "rows_of x (trace w1) arts = Some rows" by simp
  from clean_loop_rows [OF rs(1) rs(2) this, of "[]" "[]"] obtain w2 where
    w2: "clean_loop x rs [] w1 = (Inr rows, w2)"
      "trace w2 = trace w1 @ map (\<lambda>a. Shorten (url_of x a)) arts"
    by (auto simp add: ret_def)
  have "print_bing_results x (JObj d) w
      = (Inr (), w2\<lparr>trace := trace w2 @ [SechoTable rows] @ total_line x d\<rparr>)"
    using p w2(1) by (simp add: and_then_def emit_def)
  then show ?thesis
    using w2(2) rs(3) rows_of_length [OF assms(2)] rows_of_nth [OF assms(2)]
    by (intro exI [of _ "w2\<lparr>trace := trace w2 @ [SechoTable rows] @ total_line x d\<rparr>"]) simp
qed

theorem C1_two_articles_witness:
  "\<exists>w'. print_bing_results ext0
           (JObj [(''value'', JArr [JObj standard_fields, JObj reuters_fields]),
                  (''totalEstimatedMatches'', JInt 2)]) world0 = (Inr (), w')
     \<and> trace w' =
         [Shorten (JStr ''https://news/rain''), Shorten (JStr ''https://bing/s?q=storm''),
          SechoTable
            [\<lparr>Title = ''Rain'', Description = ''Rain is expected'', URL = ''https://qps.ru/a''\<rparr>,
             \<lparr>Title = ''Storm'', Description = ''Provided by Reuters, an Organization.'',
               URL = ''https://qps.ru/a''\<rparr>],
          Secho ''2 estimated matches.'' None]"
proof -
  let ?arts = "[JObj standard_fields, JObj reuters_fields]"
  let ?d = "[(''value'', JArr ?arts), (''totalEstimatedMatches'', JInt 2)]"
  let ?rows = "[\<lparr>Title = ''Rain'', Description = ''Rain is expected'', URL = ''https://qps.ru/a''\<rparr>,
             \<lparr>Title = ''Storm'', Description = ''Provided by Reuters, an Organization.'',
               URL = ''https://qps.ru/a''\<rparr>]"
  have v: "map_of ?d ''value'' = Some (JArr ?arts)" by simp
  have r: "rows_of ext0 (trace world0) ?arts = Some ?rows" by code_simp
  have u: "map (\<lambda>a. Shorten (url_of ext0 a)) ?arts
           = [Shorten (JStr ''https://news/rain''), Shorten (JStr ''https://bing/s?q=storm'')]"
    by code_simp
  have t: "total_line ext0 ?d = [Secho ''2 estimated matches.'' None]" by code_simp
  have e: "trace world0 = []" by (simp add: world0_def)
  from C1_one_row_per_article_in_order [OF v r] show ?thesis
    by (simp only: u t e) auto
qed

lemma clean_trending_empty_provider:
  assumes "heap w r = JObj a" "map_of a ''image'' = Some img" "getitem img ''provider'' = Inr (JArr [])"
  shows "clean_trending_article_dictionary x r w = (Inl IndexError, w)"
  using assms by (simp add: clean_trending_article_dictionary_def prog_simps)

text \<open>
  C5. On a trending record whose \<open>image.provider\<close> is the empty list,
  \<open>clean_trending_article_dictionary\<close> raises \<open>IndexError\<close> before it changes anything.
  When such a record stands in the list after articles that are in order,
  \<open>print_bing_results\<close> ends with that \<open>IndexError\<close>, and all it has done is to call the
  shortener for the earlier articles: no table and no line is printed, the rows built
  for the earlier articles are lost.
\<close>

theorem C5_empty_provider_aborts_render:
  assumes "map_of d ''value'' = Some (JArr (earlier @ JObj a # later))"
    and "rows_of x (trace w) earlier = Some rows"
    and "''name'' \<in> set (map fst a)" and "''webSearchUrl'' \<in> set (map fst a)"
    and "map_of a ''image'' = Some img"
    and "getitem img ''provider'' = Inr (JArr [])"
  shows "(\<forall>w0 r. heap w0 r = JObj a
            \<longrightarrow> clean_trending_article_dictionary x r w0 = (Inl IndexError, w0))
     \<and> (\<exists>w'. print_bing_results x (JObj d) w = (Inl IndexError, w')
            \<and> trace w' = trace w @ map (\<lambda>a. Shorten (url_of x a)) earlier)"
proof -
  from print_bing_results_list [OF assms(1), of x w] obtain rs w1 where
    p: "print_bing_results x (JObj d) w =
      and_then (clean_loop x rs []) (\<lambda>cleaned_articles.
        and_then (emit (SechoTable cleaned_articles)) (\<lambda>_ w. (Inr (), w\<lparr>trace := trace w @ total_line x d\<rparr>))) w1"
    and rs: "distinct rs" "map (heap w1) rs = earlier @ JObj a # later" "trace w1 = trace w"
    by blast
  from rs(2) obtain rs1 r rs2 where
    sp: "rs = rs1 @ r # rs2" "map (heap w1) rs1 = earlier" "heap w1 r = JObj a"
    by (auto simp add: map_eq_append_conv map_eq_Cons_conv)
  from rs(1) sp(1) have d1: "distinct rs1" "r \<notin> set rs1" by auto
  from assms(2) rs(3) have "rows_of x (trace w1) earlier = Some rows" by simp
  from clean_loop_rows [OF d1(1) sp(2) this, of "r # rs2" "[]"] obtain w2 where
    w2: "clean_loop x (rs1 @ r # rs2) [] w1 = clean_loop x (r # rs2) rows w2"
      "trace w2 = trace w1 @ map (\<lambda>a. Shorten (url_of x a)) earlier"
      "\<forall>r'. r' \<notin> set rs1 \<longrightarrow> heap w2 r' = heap w1 r'"
    by auto
  from w2(3) d1(2) sp(3) have h: "heap w2 r = JObj a" by simp
  have "clean_item x r w2 = (Inl IndexError, w2)"
    using h assms(3) assms(4) clean_trending_empty_provider [OF h assms(5) assms(6), of x]
    by (simp add: clean_item_def is_trending_obj and_then_def del: set_map)
  then have "clean_loop x (r # rs2) rows w2 = (Inl IndexError, w2)"
    by (simp add: and_then_def)
  with p sp(1) w2(1) have "print_bing_results x (JObj d) w = (Inl IndexError, w2)"
    by (simp add: and_then_def)
  with w2(2) rs(3) show ?thesis
    using clean_trending_empty_provider [OF _ assms(5) assms(6)] by auto
qed

theorem C5_empty_provider_witness:
  "clean_trending_article_dictionary ext0 0 (world_of (JObj empty_provider_fields))
     = (Inl IndexError, world_of (JObj empty_provider_fields))
   \<and> (\<exists>w'. print_bing_results ext0
           (JObj [(''value'', JArr [JObj standard_fields, JObj empty_provider_fields,
                                    JObj standard_fields])]) world0 = (Inl IndexError, w')
     \<and> trace w' = [Shorten (JStr ''https://news/rain'')])"
proof -
  let ?d = "[(''value'', JArr ([JObj standard_fields] @ JObj empty_provider_fields # [JObj standard_fields]))]"
  have v: "map_of ?d ''value''
      = Some (JArr ([JObj standard_fields] @ JObj empty_provider_fields # [JObj standard_fields]))" by simp
  have r: "rows_of ext0 (trace world0) [JObj standard_fields]
      = Some [\<lparr>Title = ''Rain'', Description = ''Rain is expected'', URL = ''https://qps.ru/a''\<rparr>]"
    by code_simp
  have k: "''name'' \<in> set (map fst empty_provider_fields)"
    "''webSearchUrl'' \<in> set (map fst empty_provider_fields)"
    "map_of empty_provider_fields ''image'' = Some (JObj [(''provider'', JArr [])])"
    "getitem (JObj [(''provider'', JArr [])]) ''provider'' = Inr (JArr [])"
    by (simp_all add: empty_provider_fields_def)
  have u: "map (\<lambda>a. Shorten (url_of ext0 a)) [JObj standard_fields] = [Shorten (JStr ''https://news/rain'')]"
    by code_simp
  have e: "trace world0 = []" by (simp add: world0_def)
  have h: "heap (world_of (JObj empty_provider_fields)) 0 = JObj empty_provider_fields"
    by (simp add: world_of_def)
  from C5_empty_provider_aborts_render [OF v r k] h show ?thesis
    by (simp only: u e) auto
qed

subsection \<open>The requests of a command\<close>

lemma addsI: "(\<And>w. \<exists>evs. trace (snd (m w)) = trace w @ evs \<and> list_all P evs) \<Longrightarrow> adds P m"
  by (simp add: adds_def)

lemma adds_ret: "adds P (ret a)"
  by (simp add: adds_def ret_def)

lemma adds_throw: "adds P (throw e)"
  by (simp add: adds_def throw_def)

lemma adds_lift: "adds P (lift r)"
  by (simp add: adds_def lift_def)

lemma adds_subscript: "adds P (subscript r k)"
  by (simp add: adds_def subscript_def)

lemma adds_setitem: "adds P (setitem r k v)"
  by (simp add: adds_def setitem_def split: json.splits)

lemma adds_alloc: "adds P (alloc v)"
  by (simp add: adds_def alloc_def)

lemma adds_emit: "P e \<Longrightarrow> adds P (emit e)"
  by (simp add: adds_def emit_def)

lemma adds_shorten: "P (Shorten u) \<Longrightarrow> adds P (shorten x u)"
  by (simp add: adds_def shorten_def)

lemma adds_and_then:
  assumes "adds P m" and "\<And>a. adds P (f a)"
  shows "adds P (and_then m f)"
proof (rule addsI)
  fix w
  obtain res w1 where m: "m w = (res, w1)" by (cases "m w")
  from assms(1) obtain evs1 where e1: "trace (snd (m w)) = trace w @ evs1" "list_all P evs1"
    unfolding adds_def by blast
  show "\<exists>evs. trace (snd (and_then m f w)) = trace w @ evs \<and> list_all P evs"
  proof (cases res)
    case (Inl e)
    then show ?thesis using m e1 by (auto simp: and_then_def)
  next
    case (Inr a)
    from assms(2) [of a] obtain evs2 where
      "trace (snd (f a w1)) = trace w1 @ evs2" "list_all P evs2"
      unfolding adds_def by blast
    then show ?thesis using m e1 Inr
      by (intro exI [of _ "evs1 @ evs2"]) (simp add: and_then_def)
  qed
qed

lemma adds_except_http:
  assumes "adds P m" and "\<And>msg. adds P (h msg)"
  shows "adds P (except_http m h)"
proof (rule addsI)
  fix w
  obtain res w1 where m: "m w = (res, w1)" by (cases "m w")
  from assms(1) obtain evs1 where e1: "trace (snd (m w)) = trace w @ evs1" "list_all P evs1"
    unfolding adds_def by blast
  show "\<exists>evs. trace (snd (except_http m h w)) = trace w @ evs \<and> list_all P evs"
  proof (cases "\<exists>msg. res = Inl (HTTPError msg)")
    case True
    then obtain msg where r: "res = Inl (HTTPError msg)" by blast
    from assms(2) [of msg] obtain evs2 where
      "trace (snd (h msg w1)) = trace w1 @ evs2" "list_all P evs2"
      unfolding adds_def by blast
    then show ?thesis using m e1 r
      by (intro exI [of _ "evs1 @ evs2"]) (simp add: except_http_def)
  next
    case False
    then have "except_http m h w = (res, w1)"
      using m by (auto simp: except_http_def split: sum.splits py_error.splits)
    then show ?thesis using m e1 by auto
  qed
qed

lemma adds_alloc_all: "adds P (alloc_all vs)"
  by (induction vs) (auto intro!: adds_and_then adds_ret adds_alloc)

lemma adds_clean_trending:
  "adds P (clean_trending_article_dictionary x r)"
  unfolding clean_trending_article_dictionary_def
  by (intro adds_and_then adds_subscript adds_lift adds_setitem adds_ret)

lemma adds_new_dictionary:
  "(\<And>u. P (Shorten u)) \<Longrightarrow> adds P (new_dictionary x r)"
  unfolding new_dictionary_def
  by (intro adds_and_then adds_subscript adds_lift adds_shorten adds_ret)

lemma adds_clean_item:
  assumes "\<And>u. P (Shorten u)"
  shows "adds P (clean_item x r)"
proof -
  have "adds P (\<lambda>w. (is_trending (heap w r), w))" by (simp add: adds_def)
  moreover have "adds P (and_then (if t then clean_trending_article_dictionary x r else ret r)
       (new_dictionary x))" for t
    by (cases t) (auto intro!: adds_and_then adds_clean_trending adds_ret adds_new_dictionary assms)
  ultimately show ?thesis unfolding clean_item_def by (rule adds_and_then)
qed

lemma adds_clean_loop:
  "(\<And>u. P (Shorten u)) \<Longrightarrow> adds P (clean_loop x rs acc)"
  by (induction rs arbitrary: acc) (auto intro!: adds_and_then adds_ret adds_clean_item)

lemma adds_print_bing_results:
  assumes "\<And>u. P (Shorten u)" and "\<And>rows. P (SechoTable rows)" and "\<And>s c. P (Secho s c)"
  shows "adds P (print_bing_results x body)"
proof -
  have t: "adds P (if b then and_then (lift (getitem body ''totalEstimatedMatches''))
         (\<lambda>total. emit (Secho (py_str (repr x) total @ '' estimated matches.'') None))
       else ret ())" for b
    by (cases b) (auto intro!: adds_and_then adds_lift adds_emit adds_ret assms)
  have r: "adds P (and_then (lift (getitem body ''value'')) (\<lambda>articles.
     and_then (lift (py_iter articles)) (\<lambda>items.
     and_then (alloc_all items) (\<lambda>bing_article_list.
     and_then (clean_bing_article_list x bing_article_list) (\<lambda>cleaned_articles.
     and_then (emit (SechoTable cleaned_articles)) (\<lambda>_.
     and_then (lift (py_in ''totalEstimatedMatches'' body)) (\<lambda>has_total.
     if has_total then
       and_then (lift (getitem body ''totalEstimatedMatches'')) (\<lambda>total.
         emit (Secho (py_str (repr x) total @ '' estimated matches.'') None))
     else ret ())))))))"
    unfolding clean_bing_article_list_def
    by (intro adds_and_then adds_lift adds_alloc_all adds_clean_loop adds_emit t assms)
  show ?thesis
    unfolding print_bing_results_def
    by (rule adds_and_then [OF adds_lift]) (simp add: adds_throw r)
qed

lemma search_and_output_bing_trace:
  assumes "getenv x ''BING_SEARCH_KEY'' = Some subscription_key"
    and "getenv x ''BING_SEARCH_ENDPOINT'' = Some bing_search_endpoint"
  shows "\<exists>evs. trace (snd (search_and_output_bing x query_string params w))
        = trace w @ HttpGet (bing_search_endpoint @ ''v7.0/news'' @ query_string)
                      [(''Ocp-Apim-Subscription-Key'', subscription_key)]
                      (case params of None \<Rightarrow> [] | Some ps \<Rightarrow> ps) # evs
       \<and> list_all (\<lambda>e. \<not> is_request e) evs"
proof -
  let ?get = "HttpGet (bing_search_endpoint @ ''v7.0/news'' @ query_string)
                [(''Ocp-Apim-Subscription-Key'', subscription_key)]
                (case params of None \<Rightarrow> [] | Some ps \<Rightarrow> ps)"
  let ?w1 = "w\<lparr>trace := trace w @ [?get]\<rparr>"
  let ?rest = "\<lambda>response. except_http
       (and_then (lift (raise_for_status response)) (\<lambda>_.
        and_then (lift (json_body response)) (\<lambda>body.
        print_bing_results x body)))
       (\<lambda>error. emit (Secho (''Error: '' @ error) (Some ''red'')))"
  have q: "adds (\<lambda>e. \<not> is_request e) (?rest response)" for response
    by (intro adds_except_http adds_and_then adds_lift adds_print_bing_results adds_emit)
       (simp_all add: is_request_def)
  show ?thesis
  proof (cases "requests_get x (bing_search_endpoint @ ''v7.0/news'' @ query_string)
                [(''Ocp-Apim-Subscription-Key'', subscription_key)]
                (case params of None \<Rightarrow> [] | Some ps \<Rightarrow> ps)")
    case (Inl e)
    then have "search_and_output_bing x query_string params w = (Inl e, ?w1)"
      using assms by (simp add: search_and_output_bing_def and_then_def http_get_def)
    then show ?thesis by (intro exI [of _ "[]"]) simp
  next
    case (Inr response)
    then have s: "search_and_output_bing x query_string params w = ?rest response ?w1"
      using assms by (simp add: search_and_output_bing_def and_then_def http_get_def)
    from q [of response] obtain evs where
      "trace (snd (?rest response ?w1)) = trace ?w1 @ evs" "list_all (\<lambda>e. \<not> is_request e) evs"
      unfolding adds_def by blast
    then show ?thesis by (intro exI [of _ evs]) (simp add: s)
  qed
qed

text \<open>
  C7. With both environment variables set, the trace of the category command starts with
  its \<open>Searching for\<close> line and one request: a GET of the endpoint followed by
  \<open>v7.0/news\<close> and the query string \<open>?mkt={market}&category={category}\<close>, with the
  subscription key as its only header and an empty dictionary of parameters, so that
  nothing is added to the query string. Nothing that follows in the trace is a request.
\<close>

theorem C7_category_query_path:
  assumes "getenv x ''BING_SEARCH_KEY'' = Some subscription_key"
    and "getenv x ''BING_SEARCH_ENDPOINT'' = Some bing_search_endpoint"
  shows "\<exists>evs. trace (snd (search_bing_by_category x category market w))
        = trace w @ [Secho (''Searching for '' @ category @ '' in '' @ market @ ''...'') None,
                     HttpGet (bing_search_endpoint @ ''v7.0/news''
                                @ ''?mkt='' @ market @ ''&category='' @ category)
                       [(''Ocp-Apim-Subscription-Key'', subscription_key)] []] @ evs
       \<and> list_all (\<lambda>e. \<not> is_request e) evs"
proof -
  let ?w1 = "w\<lparr>trace := trace w @ [Secho (''Searching for '' @ category @ '' in '' @ market @ ''...'') None]\<rparr>"
  from search_and_output_bing_trace [OF assms, of "''?mkt='' @ market @ ''&category='' @ category" None ?w1]
  show ?thesis by (simp add: search_bing_by_category_def and_then_emit)
qed

theorem C7_sports_witness:
  "\<exists>evs. trace (snd (search_bing_by_category ext0 ''Sports'' ''en-US'' world0))
        = [Secho ''Searching for Sports in en-US...'' None,
           HttpGet ''https://bing/v7.0/news?mkt=en-US&category=Sports''
             [(''Ocp-Apim-Subscription-Key'', ''k'')] []] @ evs
       \<and> list_all (\<lambda>e. \<not> is_request e) evs"
proof -
  have k: "getenv ext0 ''BING_SEARCH_KEY'' = Some ''k''"
    "getenv ext0 ''BING_SEARCH_ENDPOINT'' = Some ''https://bing/''"
    by (simp_all add: ext0_def)
  from C7_category_query_path [OF k, of "''Sports''" "''en-US''" world0]
  show ?thesis by (simp add: world0_def)
qed

subsection \<open>HTTP errors\<close>

text \<open>
  C9. When the server answers with a status from 400 to 599, \<open>raise_for_status\<close> raises
  an \<open>HTTPError\<close>, and \<open>search_and_output_bing\<close> returns normally after the request and
  one line in red, \<open>Error: \<close> followed by the message of the error: no table is
  printed, no exception leaves, the exit status is 0.

  With any other status, below 400 or from 600, \<open>raise_for_status\<close> raises nothing, and
  \<open>search_and_output_bing\<close> goes on in the same way whatever the status is: inside the
  \<open>try\<close> it parses the body of the response and runs \<open>print_bing_results\<close> on it. So
  when the body parses, the outcome is that of \<open>print_bing_results\<close> on the body after
  the request, an \<open>HTTPError\<close> raised there being reported in red; and when parsing the
  body raises an exception that is not an \<open>HTTPError\<close>, this exception leaves
  \<open>search_and_output_bing\<close> after the request, and nothing is printed.
\<close>

theorem C9_http_error_is_reported:
  assumes "getenv x ''BING_SEARCH_KEY'' = Some subscription_key"
    and "getenv x ''BING_SEARCH_ENDPOINT'' = Some bing_search_endpoint"
    and "requests_get x (bing_search_endpoint @ ''v7.0/news'' @ query_string)
           [(''Ocp-Apim-Subscription-Key'', subscription_key)]
           (case params of None \<Rightarrow> [] | Some ps \<Rightarrow> ps) = Inr response"
  shows "(400 \<le> status_code response \<and> status_code response < 600 \<longrightarrow>
           (\<exists>msg. raise_for_status response = Inl (HTTPError msg)
              \<and> search_and_output_bing x query_string params w
                  = (Inr (),
                     w\<lparr>trace := trace w
                          @ [HttpGet (bing_search_endpoint @ ''v7.0/news'' @ query_string)
                               [(''Ocp-Apim-Subscription-Key'', subscription_key)]
                               (case params of None \<Rightarrow> [] | Some ps \<Rightarrow> ps),
                             Secho (''Error: '' @ msg) (Some ''red'')]\<rparr>)
              \<and> exit_status (search_and_output_bing x query_string params w) = 0))
     \<and> (status_code response < 400 \<or> 600 \<le> status_code response \<longrightarrow>
           raise_for_status response = Inr ()
         \<and> search_and_output_bing x query_string params w
             = except_http (and_then (lift (json_body response)) (print_bing_results x))
                 (\<lambda>error. emit (Secho (''Error: '' @ error) (Some ''red'')))
                 (w\<lparr>trace := trace w
                      @ [HttpGet (bing_search_endpoint @ ''v7.0/news'' @ query_string)
                           [(''Ocp-Apim-Subscription-Key'', subscription_key)]
                           (case params of None \<Rightarrow> [] | Some ps \<Rightarrow> ps)]\<rparr>)
         \<and> (\<forall>body. json_body response = Inr body \<longrightarrow>
               search_and_output_bing x query_string params w
                 = except_http (print_bing_results x body)
                     (\<lambda>error. emit (Secho (''Error: '' @ error) (Some ''red'')))
                     (w\<lparr>trace := trace w
                          @ [HttpGet (bing_search_endpoint @ ''v7.0/news'' @ query_string)
                               [(''Ocp-Apim-Subscription-Key'', subscription_key)]
                               (case params of None \<Rightarrow> [] | Some ps \<Rightarrow> ps)]\<rparr>))
         \<and> (\<forall>e. json_body response = Inl e \<and> (\<forall>msg. e \<noteq> HTTPError msg) \<longrightarrow>
               search_and_output_bing x query_string params w
                 = (Inl e,
                    w\<lparr>trace := trace w
                         @ [HttpGet (bing_search_endpoint @ ''v7.0/news'' @ query_string)
                              [(''Ocp-Apim-Subscription-Key'', subscription_key)]
                              (case params of None \<Rightarrow> [] | Some ps \<Rightarrow> ps)]\<rparr>)))"
proof -
  let ?get = "HttpGet (bing_search_endpoint @ ''v7.0/news'' @ query_string)
                [(''Ocp-Apim-Subscription-Key'', subscription_key)]
                (case params of None \<Rightarrow> [] | Some ps \<Rightarrow> ps)"
  let ?w1 = "w\<lparr>trace := trace w @ [?get]\<rparr>"
  let ?h = "\<lambda>error. emit (Secho (''Error: '' @ error) (Some ''red''))"
  have run: "search_and_output_bing x query_string params w
      = except_http (and_then (lift (raise_for_status response)) (\<lambda>_.
          and_then (lift (json_body response)) (print_bing_results x))) ?h ?w1"
    using assms by (simp add: search_and_output_bing_def and_then_def http_get_def)
  have error: "\<exists>msg. raise_for_status response = Inl (HTTPError msg)
      \<and> search_and_output_bing x query_string params w
           = (Inr (), w\<lparr>trace := trace w @ [?get, Secho (''Error: '' @ msg) (Some ''red'')]\<rparr>)
      \<and> exit_status (search_and_output_bing x query_string params w) = 0"
    if s: "400 \<le> status_code response \<and> status_code response < 600"
  proof -
    from s obtain msg where r: "raise_for_status response = Inl (HTTPError msg)"
      by (cases "status_code response < 500") (auto simp add: raise_for_status_def)
    have "search_and_output_bing x query_string params w
           = (Inr (), w\<lparr>trace := trace w @ [?get, Secho (''Error: '' @ msg) (Some ''red'')]\<rparr>)"
      using r by (simp add: run and_then_def except_http_def lift_def emit_def)
    with r show ?thesis by (auto simp add: exit_status_def)
  qed
  have other: "raise_for_status response = Inr ()
      \<and> search_and_output_bing x query_string params w
           = except_http (and_then (lift (json_body response)) (print_bing_results x)) ?h ?w1
      \<and> (\<forall>body. json_body response = Inr body \<longrightarrow>
            search_and_output_bing x query_string params w
              = except_http (print_bing_results x body) ?h ?w1)
      \<and> (\<forall>e. json_body response = Inl e \<and> (\<forall>msg. e \<noteq> HTTPError msg) \<longrightarrow>
            search_and_output_bing x query_string params w = (Inl e, ?w1))"
    if s: "status_code response < 400 \<or> 600 \<le> status_code response"
  proof -
    from s have r: "raise_for_status response = Inr ()"
      by (auto simp add: raise_for_status_def)
    have e1: "search_and_output_bing x query_string params w
           = except_http (and_then (lift (json_body response)) (print_bing_results x)) ?h ?w1"
      using r by (simp add: run except_http_def and_then_def lift_def)
    have e2: "search_and_output_bing x query_string params w
              = except_http (print_bing_results x body) ?h ?w1"
      if "json_body response = Inr body" for body
      using that by (simp add: e1 except_http_def and_then_def lift_def)
    have e3: "search_and_output_bing x query_string params w = (Inl e, ?w1)"
      if "json_body response = Inl e \<and> (\<forall>msg. e \<noteq> HTTPError msg)" for e
      using that by (cases e) (simp_all add: e1 except_http_def and_then_def lift_def)
    from r e1 e2 e3 show ?thesis by blast
  qed
  from error other show ?thesis by blast
qed

lemma str_int_404: "str_int 404 = ''404''"
  by code_simp

lemma fill_rain: "fill ''Rain'' 40 = ''Rain''" "fill ''Rain is expected'' 60 = ''Rain is expected''"
  by code_simp+

lemma and_then_lift_Inr_eq: "and_then (lift (Inr a)) f = f a"
  by (rule ext) (simp add: prog_simps)

lemma print_bing_results_rows:
  assumes "map_of d ''value'' = Some (JArr arts)"
    and "rows_of x (trace w) arts = Some rows"
  shows "\<exists>w'. print_bing_results x (JObj d) w = (Inr (), w')
     \<and> trace w' = trace w @ map (\<lambda>a. Shorten (url_of x a)) arts @ [SechoTable rows]
                  @ total_line x d"
proof -
  from print_bing_results_list [OF assms(1), of x w] obtain rs w1 where
    p: "print_bing_results x (JObj d) w =
      and_then (clean_loop x rs []) (\<lambda>cleaned_articles.
        and_then (emit (SechoTable cleaned_articles)) (\<lambda>_ w. (Inr (), w\<lparr>trace := trace w @ total_line x d\<rparr>))) w1"
    and rs: "distinct rs" "map (heap w1) rs = arts" "trace w1 = trace w"
    by blast
  from assms(2) rs(3) have "rows_of x (trace w1) arts = Some rows" by simp
  from clean_loop_rows [OF rs(1) rs(2) this, of "[]" "[]"] obtain w2 where
    w2: "clean_loop x rs [] w1 = (Inr rows, w2)"
      "trace w2 = trace w1 @ map (\<lambda>a. Shorten (url_of x a)) arts"
    by (auto simp add: ret_def)
  have "print_bing_results x (JObj d) w
      = (Inr (), w2\<lparr>trace := trace w2 @ [SechoTable rows] @ total_line x d\<rparr>)"
    using p w2(1) by (simp add: and_then_def emit_def)
  then show ?thesis
    using w2(2) rs(3)
    by (intro exI [of _ "w2\<lparr>trace := trace w2 @ [SechoTable rows] @ total_line x d\<rparr>"]) simp
qed

lemma render_one_standard_article:
  assumes "short x = (\<lambda>tr u. Inr ''https://qps.ru/a'')"
  shows "fst (except_http (print_bing_results x (JObj [(''value'', JArr [JObj standard_fields])])) h w)
           = Inr ()
   \<and> trace (snd (except_http (print_bing_results x (JObj [(''value'', JArr [JObj standard_fields])])) h w))
       = trace w @ [Shorten (JStr ''https://news/rain''),
                    SechoTable [\<lparr>Title = ''Rain'', Description = ''Rain is expected'',
                                 URL = ''https://qps.ru/a''\<rparr>]]"
proof -
  define d where "d = [(''value'', JArr [JObj standard_fields])]"
  define rows where
    "rows = [\<lparr>Title = ''Rain'', Description = ''Rain is expected'', URL = ''https://qps.ru/a''\<rparr>]"
  have v: "map_of d ''value'' = Some (JArr [JObj standard_fields])" by (simp add: d_def)
  have r: "rows_of x (trace w) [JObj standard_fields] = Some rows"
    by (simp add: view_def standard_fields_def assms fill_rain rows_def)
  have u: "url_of x (JObj standard_fields) = JStr ''https://news/rain''"
    by (simp add: url_of_def view_def standard_fields_def)
  have t: "total_line x d = []" by (simp add: total_line_def d_def)
  from print_bing_results_rows [OF v r] obtain w' where
    "print_bing_results x (JObj d) w = (Inr (), w')"
    "trace w' = trace w @ map (\<lambda>a. Shorten (url_of x a)) [JObj standard_fields] @ [SechoTable rows]
                  @ total_line x d"
    by blast
  then have "fst (except_http (print_bing_results x (JObj d)) h w) = Inr ()
     \<and> trace (snd (except_http (print_bing_results x (JObj d)) h w))
         = trace w @ [Shorten (JStr ''https://news/rain''), SechoTable rows]"
    by (simp add: except_http_def u t)
  then show ?thesis by (simp only: d_def rows_def)
qed

theorem C9_not_found_witness:
  "search_bing_by_trending (ext_status 404 ''Not Found'') ''en-GB'' world0
     = (Inr (),
        world0\<lparr>trace :=
          [Secho ''Searching for trending topics in en-GB...'' None,
           HttpGet ''https://bing/v7.0/news/trendingtopics?mkt=en-GB''
             [(''Ocp-Apim-Subscription-Key'', ''k'')] [],
           Secho ''Error: 404 Client Error: Not Found for url: https://bing/v7.0/news/trendingtopics?mkt=en-GB''
             (Some ''red'')]\<rparr>)
   \<and> exit_status (search_bing_by_trending (ext_status 404 ''Not Found'') ''en-GB'' world0) = 0
   \<and> fst (search_bing_by_trending (ext_status 200 ''OK'') ''en-GB'' world0) = Inr ()
   \<and> trace (snd (search_bing_by_trending (ext_status 200 ''OK'') ''en-GB'' world0))
       = [Secho ''Searching for trending topics in en-GB...'' None,
          HttpGet ''https://bing/v7.0/news/trendingtopics?mkt=en-GB''
            [(''Ocp-Apim-Subscription-Key'', ''k'')] [],
          Shorten (JStr ''https://news/rain''),
          SechoTable [\<lparr>Title = ''Rain'', Description = ''Rain is expected'',
                       URL = ''https://qps.ru/a''\<rparr>]]"
proof -
  let ?w1 = "world0\<lparr>trace := trace world0 @ [Secho ''Searching for trending topics in en-GB...'' None]\<rparr>"
  let ?body = "JObj [(''value'', JArr [JObj standard_fields])]"
  let ?response = "\<lambda>code phrase. \<lparr>status_code = code, reason = phrase,
                    url = ''https://bing/'' @ ''v7.0/news'' @ ''/trendingtopics?mkt='' @ ''en-GB'',
                    json_body = Inr ?body\<rparr>"
  have k: "getenv (ext_status code phrase) ''BING_SEARCH_KEY'' = Some ''k''"
    "getenv (ext_status code phrase) ''BING_SEARCH_ENDPOINT'' = Some ''https://bing/''"
    for code phrase
    by (simp_all add: ext_status_def ext0_def)
  have g: "requests_get (ext_status code phrase)
           (''https://bing/'' @ ''v7.0/news'' @ ''/trendingtopics?mkt='' @ ''en-GB'')
           [(''Ocp-Apim-Subscription-Key'', ''k'')]
           (case None of None \<Rightarrow> [] | Some ps \<Rightarrow> ps) = Inr (?response code phrase)"
    for code phrase
    by (simp add: ext_status_def)
  have s: "short (ext_status 200 ''OK'') = (\<lambda>tr u. Inr ''https://qps.ru/a'')"
    by (simp add: ext_status_def ext0_def)
  note r = render_one_standard_article [OF s,
      of "\<lambda>error. emit (Secho (''Error: '' @ error) (Some ''red''))"
         "?w1\<lparr>trace := trace ?w1 @ [HttpGet (''https://bing/'' @ ''v7.0/news'' @ ''/trendingtopics?mkt='' @ ''en-GB'')
                           [(''Ocp-Apim-Subscription-Key'', ''k'')]
                           (case None of None \<Rightarrow> [] | Some ps \<Rightarrow> ps)]\<rparr>"]
  have a: "search_bing_by_trending (ext_status 404 ''Not Found'') ''en-GB'' world0
     = (Inr (),
        world0\<lparr>trace :=
          [Secho ''Searching for trending topics in en-GB...'' None,
           HttpGet ''https://bing/v7.0/news/trendingtopics?mkt=en-GB''
             [(''Ocp-Apim-Subscription-Key'', ''k'')] [],
           Secho ''Error: 404 Client Error: Not Found for url: https://bing/v7.0/news/trendingtopics?mkt=en-GB''
             (Some ''red'')]\<rparr>)
   \<and> exit_status (search_bing_by_trending (ext_status 404 ''Not Found'') ''en-GB'' world0) = 0"
    using C9_http_error_is_reported [OF k g, of 404 "''Not Found''" ?w1]
    by (simp add: search_bing_by_trending_def and_then_emit raise_for_status_def str_int_404 world0_def exit_status_def)
  have b: "search_bing_by_trending (ext_status 200 ''OK'') ''en-GB'' world0
      = except_http (print_bing_results (ext_status 200 ''OK'') ?body)
          (\<lambda>error. emit (Secho (''Error: '' @ error) (Some ''red'')))
          (?w1\<lparr>trace := trace ?w1 @ [HttpGet (''https://bing/'' @ ''v7.0/news'' @ ''/trendingtopics?mkt='' @ ''en-GB'')
                           [(''Ocp-Apim-Subscription-Key'', ''k'')]
                           (case None of None \<Rightarrow> [] | Some ps \<Rightarrow> ps)]\<rparr>)"
    using C9_http_error_is_reported [OF k g, of 200 "''OK''" ?w1]
    by (simp add: search_bing_by_trending_def and_then_emit and_then_lift_Inr_eq)
  have c: "fst (search_bing_by_trending (ext_status 200 ''OK'') ''en-GB'' world0) = Inr ()
   \<and> trace (snd (search_bing_by_trending (ext_status 200 ''OK'') ''en-GB'' world0))
       = [Secho ''Searching for trending topics in en-GB...'' None,
          HttpGet ''https://bing/v7.0/news/trendingtopics?mkt=en-GB''
            [(''Ocp-Apim-Subscription-Key'', ''k'')] [],
          Shorten (JStr ''https://news/rain''),
          SechoTable [\<lparr>Title = ''Rain'', Description = ''Rain is expected'',
                       URL = ''https://qps.ru/a''\<rparr>]]"
  proof -
    from r have "fst (search_bing_by_trending (ext_status 200 ''OK'') ''en-GB'' world0) = Inr ()"
      by (simp only: b)
    moreover from r have "trace (snd (search_bing_by_trending (ext_status 200 ''OK'') ''en-GB'' world0))
       = [Secho ''Searching for trending topics in en-GB...'' None,
          HttpGet ''https://bing/v7.0/news/trendingtopics?mkt=en-GB''
            [(''Ocp-Apim-Subscription-Key'', ''k'')] [],
          Shorten (JStr ''https://news/rain''),
          SechoTable [\<lparr>Title = ''Rain'', Description = ''Rain is expected'',
                       URL = ''https://qps.ru/a''\<rparr>]]"
      by (simp only: b) (simp add: world0_def)
    ultimately show ?thesis by blast
  qed
  from a c show ?thesis by blast
qed

text \<open>A status outside 200 to 299 that is below 400 is not an error for
  \<open>raise_for_status\<close>: with the status 300 and a list of one article in the body, the
  article is rendered, a table with its row is printed and no error message is.\<close>

theorem C9_status_300_prints_table:
  "fst (search_and_output_bing (ext_status 300 ''Multiple Choices'') ''/search''
          (Some [(''q'', JStr ''rain''), (''textDecorations'', JBool False)]) world0) = Inr ()
   \<and> trace (snd (search_and_output_bing (ext_status 300 ''Multiple Choices'') ''/search''
          (Some [(''q'', JStr ''rain''), (''textDecorations'', JBool False)]) world0))
       = [HttpGet ''https://bing/v7.0/news/search'' [(''Ocp-Apim-Subscription-Key'', ''k'')]
            [(''q'', JStr ''rain''), (''textDecorations'', JBool False)],
          Shorten (JStr ''https://news/rain''),
          SechoTable [\<lparr>Title = ''Rain'', Description = ''Rain is expected'',
                       URL = ''https://qps.ru/a''\<rparr>]]"
proof -
  let ?x = "ext_status 300 ''Multiple Choices''"
  let ?w1 = "world0\<lparr>trace := trace world0
      @ [HttpGet ''https://bing/v7.0/news/search'' [(''Ocp-Apim-Subscription-Key'', ''k'')]
           [(''q'', JStr ''rain''), (''textDecorations'', JBool False)]]\<rparr>"
  have s: "short ?x = (\<lambda>tr u. Inr ''https://qps.ru/a'')"
    by (simp add: ext_status_def ext0_def)
  have run: "search_and_output_bing ?x ''/search''
          (Some [(''q'', JStr ''rain''), (''textDecorations'', JBool False)]) world0
      = except_http (print_bing_results ?x (JObj [(''value'', JArr [JObj standard_fields])]))
          (\<lambda>error. emit (Secho (''Error: '' @ error) (Some ''red''))) ?w1"
    by (simp add: search_and_output_bing_def ext_status_def ext0_def and_then_def
        http_get_def except_http_def lift_def raise_for_status_def)
  from render_one_standard_article [OF s,
      of "\<lambda>error. emit (Secho (''Error: '' @ error) (Some ''red''))" ?w1]
  show ?thesis by (simp only: run) (simp add: world0_def)
qed

subsection \<open>Wrapping of the cells\<close>































end
